theory Spec2Isabelle
  imports Main
begin

section \<open>The web-form module of medusa (src/modsrc/web-form.c)\<close>

text \<open>
  A shallow embedding of the functions of \<^verbatim>\<open>web-form.c\<close> that build a request, read the
  status line of the answer, follow a redirect and decide a verdict.

  A C string is modelled by the list of its bytes before the terminator (a \<open>string\<close>
  with no NUL in it); a \<^verbatim>\<open>char *\<close> that may be \<^verbatim>\<open>NULL\<close> is a \<open>string option\<close>.
  A pointer into a string (the result of \<^verbatim>\<open>strchr\<close> or \<^verbatim>\<open>strcasestr\<close>) is the suffix
  that starts there. What C leaves undefined (a write past an allocation, a read past
  a terminator, the use of a null pointer) and \<^verbatim>\<open>abort()\<close> are values of \<open>fault\<close>.
\<close>

datatype fault = Abort | OutOfBounds | NullPointer

subsection \<open>The C library, as far as the module uses it\<close>

definition NUL :: char where
  "NUL = CHR 0x00"

text \<open>\<^verbatim>\<open>isspace\<close> and \<^verbatim>\<open>isdigit\<close> in the C locale.\<close>

definition isspace :: "char \<Rightarrow> bool" where
  "isspace c = (c = CHR '' '' \<or> (9 \<le> (of_char c :: nat) \<and> (of_char c :: nat) \<le> 13))"

definition isdigit :: "char \<Rightarrow> bool" where
  "isdigit c = (48 \<le> (of_char c :: nat) \<and> (of_char c :: nat) \<le> 57)"

text \<open>An upper-case letter (65 to 90) becomes lower-case by adding 32, that is by setting bit 5.\<close>

definition tolower :: "char \<Rightarrow> char" where
  "tolower c =
     (if 65 \<le> (of_char c :: nat) \<and> (of_char c :: nat) \<le> 90
      then (case c of Char b0 b1 b2 b3 b4 b5 b6 b7 \<Rightarrow> Char b0 b1 b2 b3 b4 True b6 b7)
      else c)"

text \<open>\<^verbatim>\<open>strchr(s, c)\<close>: the suffix of \<open>s\<close> at the first \<open>c\<close>, or \<^verbatim>\<open>NULL\<close>.\<close>

fun strchr :: "string \<Rightarrow> char \<Rightarrow> string option" where
  "strchr [] c = None"
| "strchr (x # xs) c = (if x = c then Some (x # xs) else strchr xs c)"

text \<open>Does \<open>s\<close> begin with \<open>needle\<close>, letters compared without case?\<close>

fun starts_with_ci :: "string \<Rightarrow> string \<Rightarrow> bool" where
  "starts_with_ci s [] = True"
| "starts_with_ci [] (n # ns) = False"
| "starts_with_ci (x # xs) (n # ns) = (tolower x = tolower n \<and> starts_with_ci xs ns)"

text \<open>\<^verbatim>\<open>strcasestr(haystack, needle)\<close>: the suffix of the haystack at the first match.\<close>

fun strcasestr :: "string \<Rightarrow> string \<Rightarrow> string option" where
  "strcasestr [] needle = (if needle = [] then Some [] else None)"
| "strcasestr (h # hs) needle =
     (if starts_with_ci (h # hs) needle then Some (h # hs) else strcasestr hs needle)"

text \<open>
  \<^verbatim>\<open>strtol(s, NULL, 10)\<close>: white space is skipped, one sign is read, then the decimal
  digits; with no digit the value is 0. A value outside \<^verbatim>\<open>long\<close> is replaced by the
  nearest bound (\<^verbatim>\<open>long\<close> has 64 bits here, as on 64-bit Linux).
\<close>

fun digits_value :: "string \<Rightarrow> int \<Rightarrow> int" where
  "digits_value [] acc = acc"
| "digits_value (c # cs) acc =
     (if isdigit c then digits_value cs (10 * acc + (of_char c - 48)) else acc)"

definition LONG_MAX :: int where
  "LONG_MAX = 2 ^ 63 - 1"

definition LONG_MIN :: int where
  "LONG_MIN = - (2 ^ 63)"

definition strtol :: "string \<Rightarrow> int" where
  "strtol s =
     (let s1 = dropWhile isspace s;
          v = (case s1 of
                 [] \<Rightarrow> 0
               | c # r \<Rightarrow>
                   if c = CHR ''-'' then - digits_value r 0
                   else if c = CHR ''+'' then digits_value r 0
                   else digits_value s1 0)
      in max LONG_MIN (min LONG_MAX v))"

subsection \<open>The status line\<close>

text \<open>
  \<^verbatim>\<open>HttpStatusCodeT\<close> is declared in \<^verbatim>\<open>web-form.h\<close>, which is not among the sources. The
  function stores the number read by \<^verbatim>\<open>strtol\<close> in a variable of this type and compares
  it with the enumerators, so each status enumerator has the number of its status.
\<close>

datatype HttpStatusCodeT =
    HTTP_STATUS_PARSE_ERR
  | HTTP_STATUS_NOT_IMPL
  | HTTP_OK
  | HTTP_MOVED_PERMANENTLY
  | HTTP_FOUND
  | HTTP_TEMPORARY_REDIRECT
  | HTTP_PERMANENT_REDIRECT
  | HTTP_BAD_REQUEST
  | HTTP_UNAUTHORIZED
  | HTTP_FORBIDDEN
  | HTTP_NOT_FOUND

text \<open>
  The conversion \<^verbatim>\<open>(HttpStatusCodeT) strtol(...)\<close>: an enumeration has 32 bits, so the
  64-bit value is reduced modulo \<open>2 ^ 32\<close> (read here as a signed number; the
  statuses compared with lie between 200 and 404, where signed and unsigned agree).
\<close>

definition enum_of_long :: "int \<Rightarrow> int" where
  "enum_of_long v = (v + 2 ^ 31) mod 2 ^ 32 - 2 ^ 31"

text \<open>
  Modelled from the spec: the numbers of the enumerators of \<^verbatim>\<open>HttpStatusCodeT\<close>
  (declared in the missing \<^verbatim>\<open>web-form.h\<close>): 200 is OK, 301, 302, 307 and 308 are the
  redirects, 400, 401, 403 and 404 the client errors. The \<^verbatim>\<open>switch\<close> of
  \<^verbatim>\<open>parseHttpStatusCode\<close> keeps these and turns every other number into
  \<^verbatim>\<open>HTTP_STATUS_NOT_IMPL\<close>.
\<close>

definition status_switch :: "int \<Rightarrow> HttpStatusCodeT" where
  "status_switch ret =
     (if ret = 200 then HTTP_OK
      else if ret = 301 then HTTP_MOVED_PERMANENTLY
      else if ret = 302 then HTTP_FOUND
      else if ret = 307 then HTTP_TEMPORARY_REDIRECT
      else if ret = 308 then HTTP_PERMANENT_REDIRECT
      else if ret = 400 then HTTP_BAD_REQUEST
      else if ret = 401 then HTTP_UNAUTHORIZED
      else if ret = 403 then HTTP_FORBIDDEN
      else if ret = 404 then HTTP_NOT_FOUND
      else HTTP_STATUS_NOT_IMPL)"

definition parseHttpStatusCode :: "string option \<Rightarrow> HttpStatusCodeT" where
  "parseHttpStatusCode buf =
     (case buf of
        None \<Rightarrow> HTTP_STATUS_PARSE_ERR
      | Some b \<Rightarrow>
          (case strchr b CHR '' '' of
             None \<Rightarrow> HTTP_STATUS_PARSE_ERR
           | Some ptr \<Rightarrow> status_switch (enum_of_long (strtol ptr))))"

subsection \<open>The URL encoder\<close>

text \<open>
  Whether \<^verbatim>\<open>char\<close> is signed is the C implementation's choice (signed on x86, unsigned
  on ARM Linux); \<open>schar\<close> says which. \<open>char_value schar c\<close> is the value of the
  \<^verbatim>\<open>char\<close> holding the byte \<open>c\<close>, and \<open>to_unsigned_int\<close> the conversion
  \<^verbatim>\<open>(unsigned int) c\<close> to 32 bits.
\<close>

definition char_value :: "bool \<Rightarrow> char \<Rightarrow> int" where
  "char_value schar c = (if schar \<and> 128 \<le> (of_char c :: int) then of_char c - 256 else of_char c)"

definition to_unsigned_int :: "int \<Rightarrow> int" where
  "to_unsigned_int v = v mod 2 ^ 32"

text \<open>
  Modelled from the spec: the macro \<^verbatim>\<open>BETWEEN(lo, c, hi)\<close> of the missing header, the test
  of \<open>c \<in> [lo, hi]\<close> of the spec's URL encoder.
\<close>

definition BETWEEN :: "int \<Rightarrow> int \<Rightarrow> int \<Rightarrow> bool" where
  "BETWEEN lo c hi = (lo \<le> c \<and> c \<le> hi)"

text \<open>\<^verbatim>\<open>printf\<close>'s \<^verbatim>\<open>%X\<close>: the upper-case hexadecimal digits of a number, at least one.\<close>

definition hexdigit :: "int \<Rightarrow> char" where
  "hexdigit d = ''0123456789ABCDEF'' ! nat d"

function hex_upper :: "int \<Rightarrow> string" where
  "hex_upper n = (if n < 16 then [hexdigit n] else hex_upper (n div 16) @ [hexdigit (n mod 16)])"
  by pat_completeness auto
termination
  by (relation "measure nat") auto

declare hex_upper.simps [simp del]

text \<open>
  Modelled from the spec: \<^verbatim>\<open>URL_ENCODE_BYTE_FMT\<close> (missing header) is the format
  \<^verbatim>\<open>"%%%02X"\<close> of the spec's \<^verbatim>\<open>%XX\<close>: a percent sign, then the number in upper-case
  hexadecimal, padded with zeros to two digits (more digits when the number needs
  them). Its \<^verbatim>\<open>sizeof\<close> is 7.
\<close>

definition URL_ENCODE_BYTE_FMT :: "int \<Rightarrow> string" where
  "URL_ENCODE_BYTE_FMT v =
     CHR ''%'' # replicate (2 - length (hex_upper v)) CHR ''0'' @ hex_upper v"

definition sizeof_URL_ENCODE_BYTE_FMT :: nat where
  "sizeof_URL_ENCODE_BYTE_FMT = 7"

text \<open>
  \<^verbatim>\<open>snprintf(dst, n, ...)\<close> stores at most \<open>n - 1\<close> characters of the formatted text
  and a terminator; \<open>snprintf_bytes\<close> is what it stores.
\<close>

definition snprintf_bytes :: "nat \<Rightarrow> string \<Rightarrow> char list" where
  "snprintf_bytes n formatted = take (n - 1) formatted @ [NUL]"

text \<open>
  An allocation is the list of its bytes. \<open>write_at buf j xs\<close> stores \<open>xs\<close> from
  offset \<open>j\<close> on; storing past the end of the allocation is a fault. \<open>c_string\<close> reads
  the string that starts the allocation.
\<close>

definition write_at :: "char list \<Rightarrow> nat \<Rightarrow> char list \<Rightarrow> fault + char list" where
  "write_at buf j xs =
     (if j + length xs \<le> length buf
      then Inr (take j buf @ xs @ drop (j + length xs) buf)
      else Inl OutOfBounds)"

definition c_string :: "char list \<Rightarrow> string" where
  "c_string buf = takeWhile (\<lambda>c. c \<noteq> NUL) buf"

text \<open>The loop of \<^verbatim>\<open>urlencodeup\<close> over the bytes of \<^verbatim>\<open>szStr\<close>, with the offset \<open>j\<close> and the buffer.\<close>

fun urlencode_loop :: "bool \<Rightarrow> string \<Rightarrow> nat \<Rightarrow> char list \<Rightarrow> fault + (nat \<times> char list)" where
  "urlencode_loop schar [] j szRet = Inr (j, szRet)"
| "urlencode_loop schar (c # cs) j szRet =
     (if BETWEEN 97 (char_value schar c) 122
         \<or> BETWEEN 65 (char_value schar c) 90
         \<or> BETWEEN 48 (char_value schar c) 57
      then (case write_at szRet j [c] of
              Inl e \<Rightarrow> Inl e
            | Inr b \<Rightarrow> urlencode_loop schar cs (j + 1) b)
      else (case write_at szRet j
                   (snprintf_bytes sizeof_URL_ENCODE_BYTE_FMT
                      (URL_ENCODE_BYTE_FMT (to_unsigned_int (char_value schar c)))) of
              Inl e \<Rightarrow> Inl e
            | Inr b \<Rightarrow> urlencode_loop schar cs (j + 3) b))"

definition urlencodeup :: "bool \<Rightarrow> string \<Rightarrow> fault + string" where
  "urlencodeup schar szStr =
     (let iLen = length szStr;
          szRet = replicate (iLen * 3 + 1) NUL
      in case urlencode_loop schar szStr 0 szRet of
           Inl e \<Rightarrow> Inl e
         | Inr (j, b) \<Rightarrow>
             (case write_at b j [NUL] of
                Inl e \<Rightarrow> Inl e
              | Inr b' \<Rightarrow> Inr (c_string b')))"

text \<open>
  Percent-decoding, after the spec's words (the module has no decoder): \<^verbatim>\<open>%XY\<close> stands
  for the byte with the hexadecimal digits \<open>X\<close> and \<open>Y\<close>, any other character for
  itself.
\<close>

definition hexval :: "char \<Rightarrow> int" where
  "hexval c =
     (if 48 \<le> (of_char c :: int) \<and> (of_char c :: int) \<le> 57 then of_char c - 48
      else if 65 \<le> (of_char c :: int) \<and> (of_char c :: int) \<le> 70 then of_char c - 55
      else of_char c - 87)"

fun percent_decode :: "string \<Rightarrow> string" where
  "percent_decode (p # h # l # cs) =
     (if p = CHR ''%'' then char_of (16 * hexval h + hexval l) # percent_decode cs
      else p # percent_decode (h # l # cs))"
| "percent_decode cs = cs"

text \<open>The characters \<open>[A-Za-z0-9]\<close>.\<close>

definition is_alnum :: "char \<Rightarrow> bool" where
  "is_alnum c =
     ((97 \<le> (of_char c :: int) \<and> (of_char c :: int) \<le> 122)
      \<or> (65 \<le> (of_char c :: int) \<and> (of_char c :: int) \<le> 90)
      \<or> (48 \<le> (of_char c :: int) \<and> (of_char c :: int) \<le> 57))"

text \<open>The encoding of one byte, in the spec's words.\<close>

definition percent_byte :: "char \<Rightarrow> string" where
  "percent_byte c =
     (if is_alnum c then [c]
      else [CHR ''%'', hexdigit ((of_char c :: int) div 16), hexdigit ((of_char c :: int) mod 16)])"

subsection \<open>The module's data\<close>

text \<open>
  \<^verbatim>\<open>ModuleDataT\<close> and the enumerations are declared in the missing \<^verbatim>\<open>web-form.h\<close>; the
  fields and enumerators below are the ones \<^verbatim>\<open>web-form.c\<close> uses. Every string field is a
  \<^verbatim>\<open>char *\<close> that \<^verbatim>\<open>calloc\<close> leaves \<^verbatim>\<open>NULL\<close>.
\<close>

datatype FormTypeT = FORM_UNKNOWN | FORM_GET | FORM_POST

datatype PathTypeT = PATHTYPE_UNKNOWN | PATHTYPE_RELATIVE | PATHTYPE_ABSOLUTE | PATHTYPE_URI

datatype ModuleStateT =
  MSTATE_INITIALIZE | MSTATE_NEW | MSTATE_RUNNING | MSTATE_EXITING | MSTATE_COMPLETE

datatype LoginResultT = LOGIN_RESULT_UNKNOWN | LOGIN_RESULT_SUCCESS | LOGIN_RESULT_FAIL

record ModuleDataT =
  resourcePath :: "string option"
  resourcePathOld :: "string option"
  hostHeader :: "string option"
  userAgentHeader :: "string option"
  denySignal :: "string option"
  formData :: "string option"
  formRest :: "string option"
  formUserKey :: "string option"
  formPassKey :: "string option"
  customHeaders :: "string option"
  cookieJar :: "string option"
  nCustomHeaders :: nat
  formType :: FormTypeT
  changedRequestType :: bool

text \<open>
  The host's record of a login: the verdict \<^verbatim>\<open>iResult\<close>, and what
  \<^verbatim>\<open>setPassResult\<close> has recorded so far.
\<close>

record sLogin =
  iResult :: LoginResultT
  passResults :: "(string \<times> LoginResultT) list"

text \<open>
  Modelled from the spec: \<^verbatim>\<open>setPassResult\<close> is the host framework's
  \<^verbatim>\<open>recordVerdict(session, password, verdict)\<close>; it records the current verdict for the
  password.
\<close>

definition setPassResult :: "sLogin \<Rightarrow> string \<Rightarrow> sLogin" where
  "setPassResult login password =
     login\<lparr>passResults := passResults login @ [(password, iResult login)]\<rparr>"

definition setPasswordHelper :: "sLogin \<Rightarrow> string \<Rightarrow> LoginResultT \<Rightarrow> sLogin" where
  "setPasswordHelper login password result =
     setPassResult (login\<lparr>iResult := result\<rparr>) password"

text \<open>
  What the sources under \<^verbatim>\<open>src/\<close> leave open: whether \<^verbatim>\<open>char\<close> is signed, the number of
  the enumerator \<^verbatim>\<open>MSTATE_EXITING\<close> (\<^verbatim>\<open>_request\<close> returns it as an \<^verbatim>\<open>int\<close> that
  \<^verbatim>\<open>tryLogin\<close> tests with \<^verbatim>\<open>!\<close>), and the function \<^verbatim>\<open>resolvePath\<close> of
  \<^verbatim>\<open>web-form-resolve-path.h\<close>.
\<close>

record env =
  char_signed :: bool
  exiting_value :: int
  resolvePath :: "string option \<Rightarrow> string \<Rightarrow> string option"

text \<open>
  The transport of the host framework, for one connection: whether \<^verbatim>\<open>medusaSend\<close>
  fails, and the lines \<^verbatim>\<open>medusaReceiveLine\<close> will return, in order; after the last it
  returns \<^verbatim>\<open>NULL\<close>.
\<close>

record sock =
  send_fails :: bool
  rx :: "string list"

definition medusaReceiveLine :: "string list \<Rightarrow> string option \<times> string list" where
  "medusaReceiveLine lines = (case lines of [] \<Rightarrow> (None, []) | l # ls \<Rightarrow> (Some l, ls))"

subsection \<open>Building the request\<close>

text \<open>What glibc's \<^verbatim>\<open>%s\<close> prints for a string argument, \<^verbatim>\<open>(null)\<close> for a null pointer.\<close>

definition printf_s :: "string option \<Rightarrow> string" where
  "printf_s p = (case p of None \<Rightarrow> ''(null)'' | Some str \<Rightarrow> str)"

text \<open>\<^verbatim>\<open>printf\<close>'s \<^verbatim>\<open>%d\<close> for a number that is not negative.\<close>

function printf_d :: "nat \<Rightarrow> string" where
  "printf_d n =
     (if n < 10 then [''0123456789'' ! n] else printf_d (n div 10) @ [''0123456789'' ! (n mod 10)])"
  by pat_completeness auto
termination
  by (relation "measure id") auto

declare printf_d.simps [simp del]

definition CRLF :: string where
  "CRLF = [CHR 0x0D, CHR 0x0A]"

text \<open>
  \<^verbatim>\<open>prepareRequestParamString\<close>: the result is the string stored in \<^verbatim>\<open>*dst\<close> (the C
  function returns its length). \<^verbatim>\<open>abort()\<close> is the fault \<open>Abort\<close>.
\<close>

definition prepareRequestParamString ::
  "bool \<Rightarrow> ModuleDataT \<Rightarrow> string \<Rightarrow> string \<Rightarrow> fault + string" where
  "prepareRequestParamString schar md szLogin szPassword =
     (case urlencodeup schar szPassword of
        Inl e \<Rightarrow> Inl e
      | Inr szPasswordEncoded \<Rightarrow>
          (let rest = (case formRest md of
                         None \<Rightarrow> []
                       | Some [] \<Rightarrow> []
                       | Some (r # rs) \<Rightarrow> ''&'' @ (r # rs))
           in case formType md of
                FORM_GET \<Rightarrow>
                  Inr (''?'' @ printf_s (formUserKey md) @ szLogin @ ''&''
                       @ printf_s (formPassKey md) @ szPasswordEncoded @ rest)
              | FORM_POST \<Rightarrow>
                  Inr (printf_s (formUserKey md) @ szLogin @ ''&''
                       @ printf_s (formPassKey md) @ szPasswordEncoded @ rest)
              | FORM_UNKNOWN \<Rightarrow> Inl Abort))"

text \<open>
  Modelled from the spec: the formats \<^verbatim>\<open>GET_REQUEST_FMT_STR\<close> and
  \<^verbatim>\<open>POST_REQUEST_FMT_STR\<close> of the missing header, after the spec's request
  composition (request line, \<^verbatim>\<open>Host\<close>, \<^verbatim>\<open>User-Agent\<close>, custom headers, cookies; for
  POST the content type and length, then the parameters as body).
\<close>

definition GET_REQUEST_FMT_STR ::
  "string option \<Rightarrow> string \<Rightarrow> string option \<Rightarrow> string option \<Rightarrow> string option
     \<Rightarrow> string option \<Rightarrow> string" where
  "GET_REQUEST_FMT_STR path params host agent custom jar =
     ''GET '' @ printf_s path @ params @ '' HTTP/1.1'' @ CRLF
     @ ''Host: '' @ printf_s host @ CRLF
     @ ''User-Agent: '' @ printf_s agent @ CRLF
     @ printf_s custom @ printf_s jar @ CRLF"

definition POST_REQUEST_FMT_STR ::
  "string option \<Rightarrow> string option \<Rightarrow> string option \<Rightarrow> string option \<Rightarrow> string option
     \<Rightarrow> nat \<Rightarrow> string \<Rightarrow> string" where
  "POST_REQUEST_FMT_STR path host agent custom jar nParameters params =
     ''POST '' @ printf_s path @ '' HTTP/1.1'' @ CRLF
     @ ''Host: '' @ printf_s host @ CRLF
     @ ''User-Agent: '' @ printf_s agent @ CRLF
     @ printf_s custom @ printf_s jar
     @ ''Content-Type: application/x-www-form-urlencoded'' @ CRLF
     @ ''Content-Length: '' @ printf_d nParameters @ CRLF
     @ CRLF @ params"

text \<open>\<^verbatim>\<open>prepareRequestString\<close>: the request, or \<^verbatim>\<open>NULL\<close> when the form type is unknown.\<close>

definition prepareRequestString ::
  "bool \<Rightarrow> ModuleDataT \<Rightarrow> string \<Rightarrow> string \<Rightarrow> fault + string option" where
  "prepareRequestString schar md szLogin szPassword =
     (case (if changedRequestType md then Inr []
            else prepareRequestParamString schar md szLogin szPassword) of
        Inl e \<Rightarrow> Inl e
      | Inr parameters \<Rightarrow>
          (case formType md of
             FORM_GET \<Rightarrow>
               Inr (Some (GET_REQUEST_FMT_STR (resourcePath md) parameters (hostHeader md)
                            (userAgentHeader md) (customHeaders md) (cookieJar md)))
           | FORM_POST \<Rightarrow>
               Inr (Some (POST_REQUEST_FMT_STR (resourcePath md) (hostHeader md)
                            (userAgentHeader md) (customHeaders md) (cookieJar md)
                            (if changedRequestType md then 0 else length parameters)
                            parameters))
           | FORM_UNKNOWN \<Rightarrow> Inr None))"

text \<open>\<^verbatim>\<open>_sendRequest\<close>: \<open>True\<close> is \<^verbatim>\<open>SUCCESS\<close>, \<open>False\<close> is \<^verbatim>\<open>FAILURE\<close>.\<close>

definition sendRequest :: "bool \<Rightarrow> sock \<Rightarrow> ModuleDataT \<Rightarrow> string \<Rightarrow> string \<Rightarrow> fault + bool" where
  "sendRequest schar hSocket md szLogin szPassword =
     (case prepareRequestString schar md szLogin szPassword of
        Inl e \<Rightarrow> Inl e
      | Inr request \<Rightarrow> Inr (\<not> send_fails hSocket))"

text \<open>
  \<^verbatim>\<open>_request\<close>: the \<^verbatim>\<open>int\<close> it returns, the receive buffer (\<^verbatim>\<open>NULL\<close> as long as nothing
  was received), the login record and the lines still to come.
\<close>

definition request ::
  "env \<Rightarrow> sock \<Rightarrow> ModuleDataT \<Rightarrow> sLogin \<Rightarrow> string \<Rightarrow> string
     \<Rightarrow> fault + (int \<times> string option \<times> sLogin \<times> string list)" where
  "request e hSocket md login szLogin szPassword =
     (case formType md of
        FORM_UNKNOWN \<Rightarrow> Inr (exiting_value e, None, login, rx hSocket)
      | _ \<Rightarrow>
          (case sendRequest (char_signed e) hSocket md szLogin szPassword of
             Inl f \<Rightarrow> Inl f
           | Inr False \<Rightarrow>
               Inr (exiting_value e, None,
                    setPasswordHelper login szPassword LOGIN_RESULT_UNKNOWN, rx hSocket)
           | Inr True \<Rightarrow>
               (case medusaReceiveLine (rx hSocket) of
                  (None, lines) \<Rightarrow>
                    Inr (0, None, setPasswordHelper login szPassword LOGIN_RESULT_UNKNOWN, lines)
                | (Some l, lines) \<Rightarrow> Inr (1, Some l, login, lines))))"

subsection \<open>Reading the response\<close>

definition is_eol :: "char \<Rightarrow> bool" where
  "is_eol c = (c = CHR 0x0D \<or> c = CHR 0x0A)"

text \<open>
  \<^verbatim>\<open>_findHeaderValue(header, src, prevPos)\<close>: the value found (or \<^verbatim>\<open>NULL\<close>) and, when a
  value was found, the position of its end of line, which the C function stores in
  \<^verbatim>\<open>*prevPos\<close>. The loop that looks for the end of the line stops at a carriage return
  or a line feed only: without one it reads past the terminator of \<^verbatim>\<open>src\<close>.
\<close>

definition findHeaderValue ::
  "string \<Rightarrow> string option \<Rightarrow> fault + (string option \<times> string option)" where
  "findHeaderValue header src =
     (case src of
        None \<Rightarrow> Inr (None, None)
      | Some s \<Rightarrow>
          (case strcasestr s header of
             None \<Rightarrow> Inr (None, None)
           | Some found \<Rightarrow>
               (let locationPtr = dropWhile isspace (drop (length header) found);
                    eolPtr = dropWhile (\<lambda>c. \<not> is_eol c) locationPtr
                in if eolPtr = [] then Inl OutOfBounds
                   else Inr (Some (takeWhile (\<lambda>c. \<not> is_eol c) locationPtr), Some eolPtr))))"

definition findLocationHeaderValue :: "string option \<Rightarrow> fault + string option" where
  "findLocationHeaderValue src =
     (case findHeaderValue (CRLF @ ''Location:'') src of
        Inl f \<Rightarrow> Inl f
      | Inr (v, p) \<Rightarrow> Inr v)"

text \<open>\<^verbatim>\<open>_pathType\<close>: the first four characters are searched for \<^verbatim>\<open>http\<close> when the path has more than four.\<close>

definition pathType :: "string option \<Rightarrow> PathTypeT" where
  "pathType path =
     (case path of
        None \<Rightarrow> PATHTYPE_UNKNOWN
      | Some p \<Rightarrow>
          (if take 1 p = ''/'' then PATHTYPE_ABSOLUTE
           else (let isURI = (if length p > 4 then strcasestr (take 4 p) ''http'' else None)
                 in if isURI \<noteq> None then PATHTYPE_URI else PATHTYPE_RELATIVE)))"

text \<open>
  \<^verbatim>\<open>_resolveLocationPath\<close>: \<^verbatim>\<open>strchr(newLocation, '?')\<close> comes first, so a null
  \<^verbatim>\<open>newLocation\<close> is a fault; the location is then cut at its first question mark.
\<close>

definition resolveLocationPath ::
  "env \<Rightarrow> string option \<Rightarrow> ModuleDataT \<Rightarrow> fault + ModuleDataT" where
  "resolveLocationPath e newLocation md =
     (case newLocation of
        None \<Rightarrow> Inl NullPointer
      | Some loc \<Rightarrow>
          (let target = takeWhile (\<lambda>c. c \<noteq> CHR ''?'') loc
           in case pathType (Some target) of
                PATHTYPE_RELATIVE \<Rightarrow>
                  Inr (md\<lparr>resourcePathOld := resourcePath md,
                          resourcePath := resolvePath e (resourcePath md) target\<rparr>)
              | PATHTYPE_URI \<Rightarrow>
                  Inr (md\<lparr>hostHeader := Some target, resourcePath := Some target\<rparr>)
              | PATHTYPE_ABSOLUTE \<Rightarrow> Inr (md\<lparr>resourcePath := Some target\<rparr>)
              | PATHTYPE_UNKNOWN \<Rightarrow> Inr md))"

text \<open>
  Modelled from the spec: with the macros \<^verbatim>\<open>COOKIE_HEADER\<close>, \<^verbatim>\<open>COOKIE_HEADER_LENGTH\<close>,
  \<^verbatim>\<open>CRLF\<close> and \<^verbatim>\<open>CRLF_LENGTH\<close> of the missing header, the three \<^verbatim>\<open>stpncpy\<close> calls of
  \<^verbatim>\<open>_setCookiesFromResponse\<close> append \<^verbatim>\<open>"Cookie: <value>\r\n"\<close> to the cookie jar.
\<close>

definition add_cookie :: "string \<Rightarrow> string \<Rightarrow> string" where
  "add_cookie jar v = jar @ ''Cookie: '' @ v @ CRLF"

lemma strcasestr_length: "strcasestr s needle = Some t \<Longrightarrow> length t \<le> length s"
  by (induction s) (auto split: if_splits)

lemma findHeaderValue_shorter:
  assumes "findHeaderValue (h # hs) (Some s) = Inr (v, Some p)"
  shows "length p < length s"
proof -
  from assms obtain found where f: "strcasestr s (h # hs) = Some found"
    and p: "p = dropWhile (\<lambda>c. \<not> is_eol c) (dropWhile isspace (drop (length (h # hs)) found))"
    by (auto simp: findHeaderValue_def Let_def split: option.splits if_splits)
  have "found \<noteq> []"
    using f by (induction s) (auto split: if_splits)
  then have "length (drop (length (h # hs)) found) < length found"
    by simp
  moreover have "length p \<le> length (drop (length (h # hs)) found)"
    unfolding p by (meson length_dropWhile_le order_trans)
  ultimately show ?thesis
    using strcasestr_length [OF f] by simp
qed

text \<open>
  \<^verbatim>\<open>_setCookiesFromResponse\<close>: the loop over the \<^verbatim>\<open>Set-Cookie\<close> headers, from the
  position \<open>prevPos\<close> on. \<^verbatim>\<open>strlen\<close> of a null cookie jar is a fault.
\<close>

function setCookies_loop :: "ModuleDataT \<Rightarrow> string \<Rightarrow> fault + ModuleDataT" where
  "setCookies_loop md prevPos =
     (case findHeaderValue (CHR 0x0D # CHR 0x0A # ''Set-Cookie:'') (Some prevPos) of
        Inl f \<Rightarrow> Inl f
      | Inr (None, p) \<Rightarrow> Inr md
      | Inr (Some v, None) \<Rightarrow> Inr md
      | Inr (Some v, Some p) \<Rightarrow>
          (case cookieJar md of
             None \<Rightarrow> Inl NullPointer
           | Some jar \<Rightarrow> setCookies_loop (md\<lparr>cookieJar := Some (add_cookie jar v)\<rparr>) p))"
  by pat_completeness auto
termination
  by (relation "measure (\<lambda>(md, prevPos). length prevPos)")
     (auto dest: findHeaderValue_shorter)

declare setCookies_loop.simps [simp del]

definition setCookiesFromResponse :: "ModuleDataT \<Rightarrow> string option \<Rightarrow> fault + ModuleDataT" where
  "setCookiesFromResponse md response =
     (case response of None \<Rightarrow> Inr md | Some r \<Rightarrow> setCookies_loop md r)"

subsection \<open>One round trip: \<^verbatim>\<open>tryLogin\<close>\<close>

text \<open>
  The loop that looks for the deny signal: \<open>buf\<close> is the receive buffer at hand,
  \<open>lines\<close> are the lines \<^verbatim>\<open>medusaReceiveLine\<close> has still to return. The loop ends at a
  match, at an empty buffer, or when no line is left. \<^verbatim>\<open>strcasestr\<close> with a null
  deny signal is a fault.
\<close>

fun denySignalFound :: "string option \<Rightarrow> string \<Rightarrow> string list \<Rightarrow> fault + bool" where
  "denySignalFound deny buf lines =
     (if buf = [] then Inr False
      else (case deny of
              None \<Rightarrow> Inl NullPointer
            | Some d \<Rightarrow>
                if strcasestr buf d \<noteq> None then Inr True
                else (case lines of
                        [] \<Rightarrow> Inr False
                      | l # ls \<Rightarrow> denySignalFound deny l ls)))"

declare denySignalFound.simps [simp del]

text \<open>The reset of \<^verbatim>\<open>tryLogin\<close> at \<^verbatim>\<open>200 OK\<close> after a redirect that changed the request method.\<close>

definition restore_after_redirect :: "ModuleDataT \<Rightarrow> ModuleDataT" where
  "restore_after_redirect md =
     (if changedRequestType md
      then md\<lparr>changedRequestType := False,
              formType := FORM_POST,
              resourcePath := resourcePathOld md,
              resourcePathOld := None,
              cookieJar := Some []\<rparr>
      else md)"

text \<open>The end of \<^verbatim>\<open>tryLogin\<close>: the search for the deny signal and the verdict.\<close>

definition verdict ::
  "ModuleDataT \<Rightarrow> sLogin \<Rightarrow> string \<Rightarrow> string option \<Rightarrow> string list
     \<Rightarrow> fault + (ModuleStateT \<times> ModuleDataT \<times> sLogin)" where
  "verdict md login szPassword pReceiveBuffer lines =
     (case (case pReceiveBuffer of
              None \<Rightarrow> Inr False
            | Some buf \<Rightarrow> denySignalFound (denySignal md) buf lines) of
        Inl f \<Rightarrow> Inl f
      | Inr found \<Rightarrow>
          Inr (MSTATE_NEW, md,
               setPassResult
                 (login\<lparr>iResult := (if found then LOGIN_RESULT_FAIL else LOGIN_RESULT_SUCCESS)\<rparr>)
                 szPassword))"

text \<open>The redirect branch of \<^verbatim>\<open>tryLogin\<close> (301, 302, 307 and 308).\<close>

definition follow_redirect ::
  "env \<Rightarrow> HttpStatusCodeT \<Rightarrow> ModuleDataT \<Rightarrow> sLogin \<Rightarrow> string \<Rightarrow> string option
     \<Rightarrow> fault + (ModuleStateT \<times> ModuleDataT \<times> sLogin)" where
  "follow_redirect e statusCode md login szPassword pReceiveBuffer =
     (case findLocationHeaderValue pReceiveBuffer of
        Inl f \<Rightarrow> Inl f
      | Inr None \<Rightarrow>
          Inr (MSTATE_EXITING, md, setPasswordHelper login szPassword LOGIN_RESULT_UNKNOWN)
      | Inr (Some newLocation) \<Rightarrow>
          (case resolveLocationPath e (Some newLocation) md of
             Inl f \<Rightarrow> Inl f
           | Inr md1 \<Rightarrow>
               (case setCookiesFromResponse md1 pReceiveBuffer of
                  Inl f \<Rightarrow> Inl f
                | Inr md2 \<Rightarrow>
                    Inr (MSTATE_NEW,
                         (if formType md2 = FORM_POST
                             \<and> (statusCode = HTTP_MOVED_PERMANENTLY \<or> statusCode = HTTP_FOUND)
                          then md2\<lparr>changedRequestType := True, formType := FORM_GET\<rparr>
                          else md2),
                         login))))"

definition tryLogin ::
  "env \<Rightarrow> sock \<Rightarrow> ModuleDataT \<Rightarrow> sLogin \<Rightarrow> string \<Rightarrow> string
     \<Rightarrow> fault + (ModuleStateT \<times> ModuleDataT \<times> sLogin)" where
  "tryLogin e hSocket md login szLogin szPassword =
     (case request e hSocket md login szLogin szPassword of
        Inl f \<Rightarrow> Inl f
      | Inr (ret, pReceiveBuffer, login1, lines) \<Rightarrow>
          if ret = 0 then Inr (MSTATE_EXITING, md, login1)
          else (case parseHttpStatusCode pReceiveBuffer of
                  HTTP_STATUS_PARSE_ERR \<Rightarrow> Inr (MSTATE_EXITING, md, login1)
                | HTTP_OK \<Rightarrow>
                    verdict (restore_after_redirect md) login1 szPassword pReceiveBuffer lines
                | HTTP_MOVED_PERMANENTLY \<Rightarrow>
                    follow_redirect e HTTP_MOVED_PERMANENTLY md login1 szPassword pReceiveBuffer
                | HTTP_FOUND \<Rightarrow>
                    follow_redirect e HTTP_FOUND md login1 szPassword pReceiveBuffer
                | HTTP_TEMPORARY_REDIRECT \<Rightarrow>
                    follow_redirect e HTTP_TEMPORARY_REDIRECT md login1 szPassword pReceiveBuffer
                | HTTP_PERMANENT_REDIRECT \<Rightarrow>
                    follow_redirect e HTTP_PERMANENT_REDIRECT md login1 szPassword pReceiveBuffer
                | _ \<Rightarrow>
                    Inr (MSTATE_EXITING, md,
                         setPasswordHelper login1 szPassword LOGIN_RESULT_UNKNOWN)))"

subsection \<open>The state \<^verbatim>\<open>MSTATE_INITIALIZE\<close> of \<^verbatim>\<open>initModule\<close>\<close>

text \<open>
  \<^verbatim>\<open>strtok_r\<close> on the text still to be read (the string given, or else what the save
  pointer holds): the token, or \<^verbatim>\<open>NULL\<close> when only delimiters are left, and the new
  save pointer.
\<close>

definition strtok_r :: "string \<Rightarrow> string \<Rightarrow> string option \<times> string" where
  "strtok_r str delim =
     (let s1 = dropWhile (\<lambda>c. c \<in> set delim) str
      in if s1 = [] then (None, [])
         else (Some (takeWhile (\<lambda>c. c \<notin> set delim) s1),
               drop 1 (dropWhile (\<lambda>c. c \<notin> set delim) s1)))"

text \<open>
  \<^verbatim>\<open>!strncasecmp(s, LIT, sizeof(LIT))\<close>: the comparison covers the terminator of the
  literal, so it holds when \<open>s\<close> is the literal up to the case of letters.
\<close>

definition strncasecmp_sizeof_eq :: "string \<Rightarrow> string \<Rightarrow> bool" where
  "strncasecmp_sizeof_eq str lit = (map tolower str = map tolower lit)"

text \<open>
  Modelled from the spec: the defaults of the missing header
  (\<^verbatim>\<open>MODULE_DEFAULT_USERNAME_KEY\<close>, \<^verbatim>\<open>MODULE_DEFAULT_PASSWORD_KEY\<close>,
  \<^verbatim>\<open>MODULE_DEFAULT_DENY_SIGNAL\<close>) and the method names \<^verbatim>\<open>POST_STR\<close> and \<^verbatim>\<open>GET_STR\<close>.
\<close>

definition MODULE_DEFAULT_USERNAME_KEY :: string where
  "MODULE_DEFAULT_USERNAME_KEY = ''username=''"

definition MODULE_DEFAULT_PASSWORD_KEY :: string where
  "MODULE_DEFAULT_PASSWORD_KEY = ''password=''"

definition MODULE_DEFAULT_DENY_SIGNAL :: string where
  "MODULE_DEFAULT_DENY_SIGNAL = ''Login incorrect''"

definition POST_STR :: string where
  "POST_STR = ''POST''"

definition GET_STR :: string where
  "GET_STR = ''GET''"

text \<open>
  The parsing of \<^verbatim>\<open>FORM-DATA\<close>, done when no user key is set yet. \<^verbatim>\<open>strtok_r\<close> cuts
  \<^verbatim>\<open>formData\<close> in place, and \<^verbatim>\<open>strncasecmp\<close> of a null token is a fault.
\<close>

definition parseFormData :: "string \<Rightarrow> ModuleDataT \<Rightarrow> fault + ModuleDataT" where
  "parseFormData fd md =
     (case strtok_r fd ''?'' of
        (None, save1) \<Rightarrow> Inl NullPointer
      | (Some pTemp, save1) \<Rightarrow>
          (let md1 = md\<lparr>formData := Some (takeWhile (\<lambda>c. c = CHR ''?'') fd @ pTemp),
                         formType := (if strncasecmp_sizeof_eq pTemp POST_STR then FORM_POST
                                      else if strncasecmp_sizeof_eq pTemp GET_STR then FORM_GET
                                      else FORM_UNKNOWN)\<rparr>;
               (user, save2) = strtok_r save1 ''&'';
               md2 = (case user of None \<Rightarrow> md1 | Some u \<Rightarrow> md1\<lparr>formUserKey := Some u\<rparr>);
               (pass, save3) = strtok_r save2 ''&'';
               md3 = (case pass of None \<Rightarrow> md2 | Some pw \<Rightarrow> md2\<lparr>formPassKey := Some pw\<rparr>);
               (rest, save4) = strtok_r save3 [];
               md4 = (case rest of None \<Rightarrow> md3 | Some r \<Rightarrow> md3\<lparr>formRest := Some r\<rparr>)
           in Inr md4))"

text \<open>
  The case \<^verbatim>\<open>MSTATE_INITIALIZE\<close>. \<open>hostPort\<close> is the text \<^verbatim>\<open>"<host>:<port>"\<close> that
  \<^verbatim>\<open>sprintf\<close> produces for the host header, \<open>userAgent\<close> the macro
  \<^verbatim>\<open>MODULE_DEFAULT_USER_AGENT\<close>; \<^verbatim>\<open>_setDefaultOption\<close> stores a copy of the default.
\<close>

definition initialize :: "string \<Rightarrow> string \<Rightarrow> ModuleDataT \<Rightarrow> fault + ModuleDataT" where
  "initialize hostPort userAgent md =
     (let md1 = (if resourcePath md = None then md\<lparr>resourcePath := Some ''/''\<rparr> else md);
          md2 = (if hostHeader md1 = None then md1\<lparr>hostHeader := Some hostPort\<rparr> else md1)
      in case (case formData md2 of
                 None \<Rightarrow>
                   Inr (md2\<lparr>formRest := Some [],
                            formUserKey := Some MODULE_DEFAULT_USERNAME_KEY,
                            formPassKey := Some MODULE_DEFAULT_PASSWORD_KEY,
                            formType := FORM_POST\<rparr>)
               | Some fd \<Rightarrow>
                   (case (if formUserKey md2 = None then parseFormData fd md2 else Inr md2) of
                      Inl f \<Rightarrow> Inl f
                    | Inr md3 \<Rightarrow>
                        Inr (if formType md3 = FORM_UNKNOWN \<or> formUserKey md3 = None
                                \<or> formPassKey md3 = None
                             then md3\<lparr>formRest := Some [],
                                      formUserKey := Some MODULE_DEFAULT_USERNAME_KEY,
                                      formPassKey := Some MODULE_DEFAULT_PASSWORD_KEY,
                                      formType := FORM_POST\<rparr>
                             else md3))) of
           Inl f \<Rightarrow> Inl f
         | Inr md4 \<Rightarrow>
             (let md5 = (if userAgentHeader md4 = None
                         then md4\<lparr>userAgentHeader := Some userAgent\<rparr> else md4);
                  md6 = (if denySignal md5 = None
                         then md5\<lparr>denySignal := Some MODULE_DEFAULT_DENY_SIGNAL\<rparr> else md5);
                  md7 = (if customHeaders md6 = None
                         then md6\<lparr>customHeaders := Some []\<rparr> else md6);
                  md8 = (if cookieJar md7 = None then md7\<lparr>cookieJar := Some []\<rparr> else md7)
              in Inr md8))"

text \<open>
  The configurations the attempt state machine can be in: the one initialisation
  leaves, and the one any round trip leaves, whatever the transport answers and
  whatever credentials the host supplies.
\<close>

inductive reachable :: "env \<Rightarrow> ModuleDataT \<Rightarrow> bool" for e :: env where
  reachable_init: "initialize hostPort userAgent md0 = Inr md \<Longrightarrow> reachable e md"
| reachable_step:
    "reachable e md \<Longrightarrow> tryLogin e hSocket md login szLogin szPassword = Inr (st, md', login')
       \<Longrightarrow> reachable e md'"

text \<open>What \<^verbatim>\<open>newModuleData\<close> returns: \<^verbatim>\<open>calloc\<close> leaves every pointer null and every number 0.\<close>

definition newModuleData :: "FormTypeT \<Rightarrow> ModuleDataT" where
  "newModuleData zeroFormType =
     \<lparr>resourcePath = None, resourcePathOld = None, hostHeader = None,
      userAgentHeader = None, denySignal = None, formData = None, formRest = None,
      formUserKey = None, formPassKey = None, customHeaders = None, cookieJar = None,
      nCustomHeaders = 0, formType = zeroFormType, changedRequestType = False\<rparr>"

subsection \<open>The spec's words for the deny signal\<close>

text \<open>
  After the spec: a line contains the deny signal as a case-insensitive substring. The
  lines the search of \<^verbatim>\<open>tryLogin\<close> reads are the receive buffer and the lines that
  follow it, up to the first empty one.
\<close>

definition contains_ci :: "string \<Rightarrow> string \<Rightarrow> bool" where
  "contains_ci line needle = (\<exists>pre suf. map tolower line = pre @ map tolower needle @ suf)"

definition scanned_lines :: "string \<Rightarrow> string list \<Rightarrow> string list" where
  "scanned_lines buf lines = takeWhile (\<lambda>x. x \<noteq> []) (buf # lines)"

subsection \<open>Sample inputs\<close>

text \<open>
  The configuration that initialisation leaves when no option was given, for the host
  \<^verbatim>\<open>example.com\<close> on port 80.
\<close>

definition example_config :: ModuleDataT where
  "example_config =
     \<lparr>resourcePath = Some ''/'', resourcePathOld = None,
      hostHeader = Some ''example.com:80'', userAgentHeader = Some ''medusa'',
      denySignal = Some ''Login incorrect'', formData = None, formRest = Some [],
      formUserKey = Some ''username='', formPassKey = Some ''password='',
      customHeaders = Some [], cookieJar = Some [], nCustomHeaders = 0,
      formType = FORM_POST, changedRequestType = False\<rparr>"

text \<open>
  An environment: \<^verbatim>\<open>char\<close> is signed, \<^verbatim>\<open>MSTATE_EXITING\<close> is 2, and \<^verbatim>\<open>resolvePath\<close>
  answers as it must for a base path in the root directory and a target without dot
  segments: the target under the root.
\<close>

definition example_env :: env where
  "example_env =
     \<lparr>char_signed = True, exiting_value = 2,
      resolvePath = (\<lambda>base target. Some (''/'' @ target))\<rparr>"

text \<open>A login record that holds the verdict of an earlier password.\<close>

definition example_login :: sLogin where
  "example_login =
     \<lparr>iResult = LOGIN_RESULT_FAIL, passResults = [(''letmein'', LOGIN_RESULT_FAIL)]\<rparr>"

text \<open>Answers of a server: redirects to an absolute path (one with a cookie) and to a relative path.\<close>

definition response_302_absolute :: string where
  "response_302_absolute =
     ''HTTP/1.1 302 Found'' @ CRLF @ ''Location: /app/home'' @ CRLF @ CRLF"

definition response_301_cookie :: string where
  "response_301_cookie =
     ''HTTP/1.1 301 Moved Permanently'' @ CRLF @ ''Location: /app/home'' @ CRLF
     @ ''Set-Cookie: a=1'' @ CRLF @ CRLF"

definition response_307_relative :: string where
  "response_307_relative =
     ''HTTP/1.1 307 Temporary Redirect'' @ CRLF @ ''Location: v2'' @ CRLF @ CRLF"

section \<open>Properties\<close>

subsection \<open>The URL encoder\<close>

lemma int_of_char_bounds: "0 \<le> (of_char c :: int) \<and> (of_char c :: int) < 256"
proof -
  have "(of_char c :: int) = int (of_char c)"
    by (simp only: of_nat_of_char)
  moreover have "(of_char c :: nat) < 256"
    by simp
  ultimately show ?thesis
    by simp
qed

lemma hexdigit_range_cases:
  "0 \<le> d \<Longrightarrow> d < 16 \<Longrightarrow> d \<in> {0, 1, 2, 3, 4, 5, 6, 7, 8, 9, 10, 11, 12, 13, 14, 15 :: int}"
  by simp arith

lemma hexval_hexdigit: "0 \<le> d \<Longrightarrow> d < 16 \<Longrightarrow> hexval (hexdigit d) = d"
  by (drule (1) hexdigit_range_cases) (auto simp: hexdigit_def hexval_def)

lemma is_alnum_hexdigit: "0 \<le> d \<Longrightarrow> d < 16 \<Longrightarrow> is_alnum (hexdigit d)"
  by (drule (1) hexdigit_range_cases) (auto simp: hexdigit_def is_alnum_def)

lemma hex_upper_byte:
  assumes "0 \<le> n" "n < 256"
  shows "replicate (2 - length (hex_upper n)) CHR ''0'' @ hex_upper n
         = [hexdigit (n div 16), hexdigit (n mod 16)]"
proof (cases "n < 16")
  case True
  then have "n div 16 = 0" "n mod 16 = n"
    using assms by simp_all
  with True show ?thesis
    by (simp add: hex_upper.simps [of n] hexdigit_def)
next
  case False
  then have "n div 16 < 16"
    using assms by simp
  with False show ?thesis
    by (simp add: hex_upper.simps [of n] hex_upper.simps [of "n div 16"])
qed

lemma char_value_narrow:
  "schar \<longrightarrow> (of_char c :: int) < 128 \<Longrightarrow> char_value schar c = of_char c"
  by (auto simp: char_value_def)

lemma snprintf_narrow:
  assumes "schar \<longrightarrow> (of_char c :: int) < 128"
  shows "snprintf_bytes sizeof_URL_ENCODE_BYTE_FMT
           (URL_ENCODE_BYTE_FMT (to_unsigned_int (char_value schar c)))
         = [CHR ''%'', hexdigit ((of_char c :: int) div 16), hexdigit ((of_char c :: int) mod 16), NUL]"
proof -
  have b: "0 \<le> (of_char c :: int)" "(of_char c :: int) < 256"
    using int_of_char_bounds [of c] by simp_all
  then have "to_unsigned_int (char_value schar c) = of_char c"
    using assms by (simp add: char_value_narrow to_unsigned_int_def)
  then show ?thesis
    using hex_upper_byte [OF b]
    by (simp add: snprintf_bytes_def sizeof_URL_ENCODE_BYTE_FMT_def URL_ENCODE_BYTE_FMT_def)
qed

lemma alnum_test_narrow:
  assumes "schar \<longrightarrow> (of_char c :: int) < 128"
  shows "(BETWEEN 97 (char_value schar c) 122 \<or> BETWEEN 65 (char_value schar c) 90
          \<or> BETWEEN 48 (char_value schar c) 57) = is_alnum c"
  using assms by (simp add: char_value_narrow BETWEEN_def is_alnum_def)

lemma percent_byte_length: "length (percent_byte c) \<le> 3"
  by (simp add: percent_byte_def)

lemma urlencode_loop_narrow:
  assumes "\<forall>c \<in> set cs. schar \<longrightarrow> (of_char c :: int) < 128"
    and "j + 3 * length cs + 1 \<le> length buf"
  shows "\<exists>j' b. urlencode_loop schar cs j buf = Inr (j', b) \<and> length b = length buf
           \<and> j' \<le> j + 3 * length cs
           \<and> take j' b = take j buf @ concat (map percent_byte cs)"
  using assms
proof (induction cs arbitrary: j buf)
  case Nil
  then show ?case by simp
next
  case (Cons c cs)
  have narrow: "schar \<longrightarrow> (of_char c :: int) < 128"
    using Cons.prems(1) by simp
  have rest: "\<forall>c \<in> set cs. schar \<longrightarrow> (of_char c :: int) < 128"
    using Cons.prems(1) by simp
  show ?case
  proof (cases "is_alnum c")
    case True
    define b1 where "b1 = take j buf @ [c] @ drop (j + 1) buf"
    have w: "write_at buf j [c] = Inr b1"
      using Cons.prems(2) by (simp add: write_at_def b1_def)
    have len: "length b1 = length buf"
      using Cons.prems(2) by (simp add: b1_def)
    have tk: "take (j + 1) b1 = take j buf @ [c]"
      using Cons.prems(2) by (simp add: b1_def)
    have "j + 1 + 3 * length cs + 1 \<le> length b1"
      using Cons.prems(2) len by simp
    from Cons.IH [OF rest this] obtain j' b where
      r: "urlencode_loop schar cs (j + 1) b1 = Inr (j', b)" "length b = length b1"
         "j' \<le> j + 1 + 3 * length cs" "take j' b = take (j + 1) b1 @ concat (map percent_byte cs)"
      by blast
    have pb: "percent_byte c = [c]"
      using True by (simp add: percent_byte_def)
    show ?thesis
      using True r w len tk alnum_test_narrow [OF narrow]
      by (simp add: pb)
  next
    case False
    let ?pb = "[CHR ''%'', hexdigit ((of_char c :: int) div 16), hexdigit ((of_char c :: int) mod 16)]"
    define b1 where "b1 = take j buf @ (?pb @ [NUL]) @ drop (j + length (?pb @ [NUL])) buf"
    have w: "write_at buf j (?pb @ [NUL]) = Inr b1"
      using Cons.prems(2) by (simp add: write_at_def b1_def)
    have len: "length b1 = length buf"
      using Cons.prems(2) by (simp add: b1_def)
    have tk: "take (j + 3) b1 = take j buf @ ?pb"
      using Cons.prems(2) by (simp add: b1_def)
    have "j + 3 + 3 * length cs + 1 \<le> length b1"
      using Cons.prems(2) len by simp
    from Cons.IH [OF rest this] obtain j' b where
      r: "urlencode_loop schar cs (j + 3) b1 = Inr (j', b)" "length b = length b1"
         "j' \<le> j + 3 + 3 * length cs" "take j' b = take (j + 3) b1 @ concat (map percent_byte cs)"
      by blast
    have pb: "percent_byte c = ?pb"
      using False by (simp add: percent_byte_def)
    show ?thesis
      using False r w len tk alnum_test_narrow [OF narrow] snprintf_narrow [OF narrow]
      by (simp add: pb)
  qed
qed

lemma percent_byte_safe: "x \<in> set (percent_byte c) \<Longrightarrow> is_alnum x \<or> x = CHR ''%''"
  using int_of_char_bounds [of c]
  by (auto simp: percent_byte_def is_alnum_hexdigit split: if_splits)

lemma is_alnum_not_NUL: "is_alnum x \<Longrightarrow> x \<noteq> NUL"
  by (auto simp: is_alnum_def NUL_def)

lemma is_alnum_not_percent: "is_alnum x \<Longrightarrow> x \<noteq> CHR ''%''"
  by (auto simp: is_alnum_def)

lemma percent_bytes_safe:
  "x \<in> set (concat (map percent_byte s)) \<Longrightarrow> is_alnum x \<or> x = CHR ''%''"
  by (auto dest: percent_byte_safe)

lemma c_string_terminated: "NUL \<notin> set xs \<Longrightarrow> c_string (xs @ NUL # ys) = xs"
  by (simp add: c_string_def takeWhile_tail [symmetric]) (induction xs, auto)

lemma percent_decode_plain:
  "p \<noteq> CHR ''%'' \<Longrightarrow> percent_decode (p # cs) = p # percent_decode cs"
proof (cases cs)
  case Nil
  then show ?thesis by simp
next
  case (Cons h t)
  then show "p \<noteq> CHR ''%'' \<Longrightarrow> ?thesis"
    by (cases t) simp_all
qed

lemma percent_decode_byte: "percent_decode (percent_byte c @ cs) = c # percent_decode cs"
proof (cases "is_alnum c")
  case True
  then show ?thesis
    by (simp add: percent_byte_def percent_decode_plain is_alnum_not_percent)
next
  case False
  have b: "0 \<le> (of_char c :: int)" "(of_char c :: int) < 256"
    using int_of_char_bounds [of c] by simp_all
  then have "hexval (hexdigit ((of_char c :: int) div 16)) = (of_char c :: int) div 16"
    and "hexval (hexdigit ((of_char c :: int) mod 16)) = (of_char c :: int) mod 16"
    by (simp_all add: hexval_hexdigit)
  then have "char_of (16 * hexval (hexdigit ((of_char c :: int) div 16))
               + hexval (hexdigit ((of_char c :: int) mod 16))) = char_of (of_char c :: int)"
    by simp
  with False show ?thesis
    by (simp add: percent_byte_def)
qed

lemma percent_decode_bytes: "percent_decode (concat (map percent_byte s)) = s"
  by (induction s) (simp_all add: percent_decode_byte)

lemma urlencodeup_bytes:
  assumes "schar \<longrightarrow> (\<forall>c \<in> set s. (of_char c :: int) < 128)"
  shows "urlencodeup schar s = Inr (concat (map percent_byte s))"
proof -
  let ?out = "concat (map percent_byte s)"
  let ?buf = "replicate (length s * 3 + 1) NUL"
  have narrow: "\<forall>c \<in> set s. schar \<longrightarrow> (of_char c :: int) < 128"
    using assms by blast
  have "0 + 3 * length s + 1 \<le> length ?buf"
    by simp
  from urlencode_loop_narrow [OF narrow this] obtain j b where
    r: "urlencode_loop schar s 0 ?buf = Inr (j, b)" "length b = length ?buf"
       "j \<le> 0 + 3 * length s" "take j b = take 0 ?buf @ ?out"
    by blast
  have jlen: "j < length b"
    using r(2,3) by simp
  have tk: "take j b = ?out"
    using r(4) by simp
  have nonul: "NUL \<notin> set ?out"
    using percent_bytes_safe [of NUL s] is_alnum_not_NUL [of NUL] by (auto simp: NUL_def)
  have "write_at b j [NUL] = Inr (?out @ NUL # drop (j + 1) b)"
    using jlen tk by (simp add: write_at_def)
  then have "urlencodeup schar s = Inr (c_string (?out @ NUL # drop (j + 1) b))"
    using r(1) by (simp add: urlencodeup_def)
  then show ?thesis
    using nonul by (simp add: c_string_terminated)
qed

text \<open>
  Claim C7, as amended. Where \<^verbatim>\<open>char\<close> is unsigned, and for every input of ASCII bytes
  (below 128) where it is signed, \<open>urlencodeup\<close> returns the concatenation of the
  encodings of the bytes: a byte in \<open>[A-Za-z0-9]\<close> unchanged, any other byte as a
  percent sign and its two upper-case hexadecimal digits. The output holds only
  characters of \<open>[A-Za-z0-9%]\<close>, and percent-decoding it gives the input back.
\<close>

theorem urlencodeup_narrow:
  assumes "schar \<longrightarrow> (\<forall>c \<in> set s. (of_char c :: int) < 128)"
  shows "urlencodeup schar s = Inr (concat (map percent_byte s))
         \<and> (\<forall>x \<in> set (concat (map percent_byte s)). is_alnum x \<or> x = CHR ''%'')
         \<and> percent_decode (concat (map percent_byte s)) = s"
  using urlencodeup_bytes [OF assms] percent_bytes_safe [of _ s] percent_decode_bytes [of s]
  by blast

text \<open>The theorem at the password \<^verbatim>\<open>p@ss w0rd\<close>, with a signed \<^verbatim>\<open>char\<close>.\<close>

theorem urlencodeup_narrow_witness:
  "urlencodeup True ''p@ss w0rd'' = Inr ''p%40ss%20w0rd''
   \<and> percent_decode ''p%40ss%20w0rd'' = ''p@ss w0rd''"
  using urlencodeup_narrow [of True "''p@ss w0rd''"]
  by (simp add: percent_byte_def is_alnum_def hexdigit_def)

text \<open>
  Claim C7 as stated fails where \<^verbatim>\<open>char\<close> is signed: the byte \<open>0xE9\<close> is the
  negative number -23, \<^verbatim>\<open>(unsigned int) c\<close> is \<open>0xFFFFFFE9\<close>, \<^verbatim>\<open>snprintf\<close> stores
  \<^verbatim>\<open>%FFFFF\<close> and the offset advances by 3: the byte is encoded as \<^verbatim>\<open>%FF\<close>, which
  decodes to \<open>0xFF\<close>.
\<close>

theorem urlencodeup_signed_counterexample:
  "urlencodeup True [CHR ''a'', CHR ''b'', CHR 0xE9] = Inr ''ab%FF''
   \<and> percent_decode ''ab%FF'' \<noteq> [CHR ''a'', CHR ''b'', CHR 0xE9]"
  by code_simp

subsection \<open>The status line\<close>

lemma strchr_first:
  "c \<notin> set pre \<Longrightarrow> strchr (pre @ c # t) c = Some (c # t)"
  by (induction pre) auto

lemma strchr_none: "c \<notin> set b \<Longrightarrow> strchr b c = None"
  by (induction b) auto

lemma isdigit_not_isspace: "isdigit c \<Longrightarrow> \<not> isspace c"
  by (auto simp: isdigit_def isspace_def)

lemma isdigit_not_sign: "isdigit c \<Longrightarrow> c \<noteq> CHR ''-'' \<and> c \<noteq> CHR ''+''"
  by (auto simp: isdigit_def)

lemma digits_value_append:
  assumes "\<forall>c \<in> set ds. isdigit c" and "r = [] \<or> \<not> isdigit (hd r)"
  shows "digits_value (ds @ r) acc = digits_value ds acc"
  using assms
proof (induction ds arbitrary: acc)
  case Nil
  then show ?case by (cases r) auto
next
  case (Cons d ds)
  then show ?case by simp
qed

lemma int_of_char: "(of_char c :: int) = int (of_char c)"
  by (simp only: of_nat_of_char)

lemma isspace_space: "isspace CHR '' ''"
  by (simp add: isspace_def)

lemma digits_value_nonneg: "0 \<le> acc \<Longrightarrow> 0 \<le> digits_value s acc"
proof (induction s arbitrary: acc)
  case Nil
  then show ?case by simp
next
  case (Cons c s)
  have "isdigit c \<Longrightarrow> 0 \<le> 10 * acc + ((of_char c :: int) - 48)"
    using Cons.prems by (simp add: isdigit_def int_of_char)
  then show ?case
    using Cons by simp
qed

lemma skip_space:
  assumes "\<forall>c \<in> set ws. isspace c" and "t = [] \<or> \<not> isspace (hd t)"
  shows "dropWhile isspace (CHR '' '' # ws @ t) = t"
proof -
  have "dropWhile isspace (ws @ t) = dropWhile isspace t"
    using assms(1) by (simp add: dropWhile_append2)
  moreover have "dropWhile isspace t = t"
    using assms(2) by (cases t) auto
  ultimately show ?thesis
    by (simp add: isspace_space)
qed

lemma sign_not_isspace: "\<not> isspace CHR ''+''" "\<not> isspace CHR ''-''"
  by (simp_all add: isspace_def)

lemma strtol_of_text:
  "strtol s =
     max LONG_MIN (min LONG_MAX
       (case dropWhile isspace s of
          [] \<Rightarrow> 0
        | c # r \<Rightarrow>
            if c = CHR ''-'' then - digits_value r 0
            else if c = CHR ''+'' then digits_value r 0
            else digits_value (c # r) 0))"
  by (cases "dropWhile isspace s") (simp_all only: strtol_def Let_def list.case)

lemma enum_of_long_small:
  "- (2 ^ 31) \<le> v \<Longrightarrow> v < 2 ^ 31
     \<Longrightarrow> enum_of_long (max LONG_MIN (min LONG_MAX v)) = v"
  by (simp add: enum_of_long_def LONG_MAX_def LONG_MIN_def)

lemma strtol_number:
  assumes ws: "\<forall>c \<in> set ws. isspace c"
    and ds: "ds \<noteq> []" "\<forall>c \<in> set ds. isdigit c"
    and r: "r = [] \<or> \<not> isdigit (hd r)"
    and n: "digits_value ds 0 < 2 ^ 31"
  shows "enum_of_long (strtol (CHR '' '' # ws @ ds @ r)) = digits_value ds 0"
    and "enum_of_long (strtol (CHR '' '' # ws @ ''+'' @ ds @ r)) = digits_value ds 0"
    and "enum_of_long (strtol (CHR '' '' # ws @ ''-'' @ ds @ r)) = - digits_value ds 0"
proof -
  obtain d ds' where dd: "ds = d # ds'"
    using ds(1) by (cases ds) auto
  have d: "isdigit d"
    using ds(2) dd by simp
  have v: "digits_value (ds @ r) 0 = digits_value ds 0"
    by (rule digits_value_append [OF ds(2) r])
  have nonneg: "0 \<le> digits_value ds 0"
    by (rule digits_value_nonneg) simp
  have "dropWhile isspace (CHR '' '' # ws @ ds @ r) = d # ds' @ r"
    using skip_space [OF ws, of "ds @ r"] isdigit_not_isspace [OF d] by (simp add: dd)
  then have "strtol (CHR '' '' # ws @ ds @ r)
             = max LONG_MIN (min LONG_MAX (digits_value ds 0))"
    using isdigit_not_sign [OF d] v by (simp add: strtol_of_text dd)
  then show "enum_of_long (strtol (CHR '' '' # ws @ ds @ r)) = digits_value ds 0"
    using nonneg n by (simp add: enum_of_long_small)
  have "dropWhile isspace (CHR '' '' # ws @ ''+'' @ ds @ r) = CHR ''+'' # ds @ r"
    using skip_space [OF ws, of "''+'' @ ds @ r"] by (simp add: sign_not_isspace)
  then have "strtol (CHR '' '' # ws @ ''+'' @ ds @ r)
             = max LONG_MIN (min LONG_MAX (digits_value ds 0))"
    using v by (simp add: strtol_of_text)
  then show "enum_of_long (strtol (CHR '' '' # ws @ ''+'' @ ds @ r)) = digits_value ds 0"
    using nonneg n by (simp add: enum_of_long_small)
  have "dropWhile isspace (CHR '' '' # ws @ ''-'' @ ds @ r) = CHR ''-'' # ds @ r"
    using skip_space [OF ws, of "''-'' @ ds @ r"] by (simp add: sign_not_isspace)
  then have "strtol (CHR '' '' # ws @ ''-'' @ ds @ r)
             = max LONG_MIN (min LONG_MAX (- digits_value ds 0))"
    using v by (simp add: strtol_of_text)
  then show "enum_of_long (strtol (CHR '' '' # ws @ ''-'' @ ds @ r)) = - digits_value ds 0"
    using nonneg n by (simp add: enum_of_long_small)
qed

lemma digits_value_no_digit: "s = [] \<or> \<not> isdigit (hd s) \<Longrightarrow> digits_value s 0 = 0"
  by (cases s) auto

lemma strtol_without_number:
  assumes "case dropWhile isspace rest of
             [] \<Rightarrow> True
           | c # t \<Rightarrow>
               if c = CHR ''-'' \<or> c = CHR ''+'' then t = [] \<or> \<not> isdigit (hd t)
               else \<not> isdigit c"
  shows "strtol (CHR '' '' # rest) = 0"
proof -
  have s1: "dropWhile isspace (CHR '' '' # rest) = dropWhile isspace rest"
    by (simp add: isspace_space)
  have st: "strtol (CHR '' '' # rest) =
              max LONG_MIN (min LONG_MAX
                (case dropWhile isspace rest of
                   [] \<Rightarrow> 0
                 | c # r \<Rightarrow>
                     if c = CHR ''-'' then - digits_value r 0
                     else if c = CHR ''+'' then digits_value r 0
                     else digits_value (c # r) 0))"
    by (simp only: strtol_of_text s1)
  show ?thesis
  proof (cases "dropWhile isspace rest")
    case Nil
    show ?thesis
      by (simp only: st Nil list.case) (simp add: LONG_MAX_def LONG_MIN_def)
  next
    case (Cons c t)
    show ?thesis
    proof (cases "c = CHR ''-'' \<or> c = CHR ''+''")
      case True
      with assms Cons have "digits_value t 0 = 0"
        by (simp add: digits_value_no_digit)
      with True Cons show ?thesis
        by (auto simp: st LONG_MAX_def LONG_MIN_def)
    next
      case False
      with assms Cons have "\<not> isdigit c"
        by simp
      with False Cons show ?thesis
        by (simp add: st LONG_MAX_def LONG_MIN_def)
    qed
  qed
qed

lemma status_switch_not_positive: "v \<le> 0 \<Longrightarrow> status_switch v = HTTP_STATUS_NOT_IMPL"
  by (simp add: status_switch_def)

text \<open>
  Claim C2, as amended. An absent input and an input without a space (the empty one
  among them) give \<^verbatim>\<open>HTTP_STATUS_PARSE_ERR\<close>. Otherwise the text after the first space
  is read as \<^verbatim>\<open>strtol\<close> reads it: white space, an optional sign, decimal digits.
  When the digits are those of a number \<open>n\<close> below \<open>2 ^ 31\<close>, with no sign or with a
  plus sign, the result is the status of \<open>n\<close> for 200, 301, 302, 307, 308, 400, 401,
  403 and 404 and \<^verbatim>\<open>HTTP_STATUS_NOT_IMPL\<close> for any other \<open>n\<close>; with a minus sign it
  is \<^verbatim>\<open>HTTP_STATUS_NOT_IMPL\<close>. When the text holds no number (after the white space it
  ends, or goes on with a character that is no digit and no sign, or with a sign that
  no digit follows), \<^verbatim>\<open>strtol\<close> reads 0 and the result is \<^verbatim>\<open>HTTP_STATUS_NOT_IMPL\<close>,
  not a parse error.
\<close>

theorem parseHttpStatusCode_cases:
  "parseHttpStatusCode None = HTTP_STATUS_PARSE_ERR
   \<and> (CHR '' '' \<notin> set b \<longrightarrow> parseHttpStatusCode (Some b) = HTTP_STATUS_PARSE_ERR)
   \<and> (CHR '' '' \<notin> set pre \<and> (\<forall>c \<in> set ws. isspace c) \<and> (opt_plus = [] \<or> opt_plus = ''+'')
        \<and> ds \<noteq> [] \<and> (\<forall>c \<in> set ds. isdigit c)
        \<and> (r = [] \<or> \<not> isdigit (hd r)) \<and> digits_value ds 0 = n \<and> n < 2 ^ 31
      \<longrightarrow> parseHttpStatusCode (Some (pre @ CHR '' '' # ws @ opt_plus @ ds @ r)) =
            (if n = 200 then HTTP_OK
             else if n = 301 then HTTP_MOVED_PERMANENTLY
             else if n = 302 then HTTP_FOUND
             else if n = 307 then HTTP_TEMPORARY_REDIRECT
             else if n = 308 then HTTP_PERMANENT_REDIRECT
             else if n = 400 then HTTP_BAD_REQUEST
             else if n = 401 then HTTP_UNAUTHORIZED
             else if n = 403 then HTTP_FORBIDDEN
             else if n = 404 then HTTP_NOT_FOUND
             else HTTP_STATUS_NOT_IMPL)
          \<and> parseHttpStatusCode (Some (pre @ CHR '' '' # ws @ ''-'' @ ds @ r))
            = HTTP_STATUS_NOT_IMPL)
   \<and> (CHR '' '' \<notin> set pre
        \<and> (case dropWhile isspace rest of
              [] \<Rightarrow> True
            | c # t \<Rightarrow>
                if c = CHR ''-'' \<or> c = CHR ''+'' then t = [] \<or> \<not> isdigit (hd t)
                else \<not> isdigit c)
      \<longrightarrow> parseHttpStatusCode (Some (pre @ CHR '' '' # rest)) = HTTP_STATUS_NOT_IMPL)"
proof (intro conjI impI)
  show "parseHttpStatusCode None = HTTP_STATUS_PARSE_ERR"
    by (simp add: parseHttpStatusCode_def)
next
  assume "CHR '' '' \<notin> set b"
  then show "parseHttpStatusCode (Some b) = HTTP_STATUS_PARSE_ERR"
    by (simp add: parseHttpStatusCode_def strchr_none)
next
  assume a: "CHR '' '' \<notin> set pre \<and> (\<forall>c \<in> set ws. isspace c) \<and> (opt_plus = [] \<or> opt_plus = ''+'')
        \<and> ds \<noteq> [] \<and> (\<forall>c \<in> set ds. isdigit c)
        \<and> (r = [] \<or> \<not> isdigit (hd r)) \<and> digits_value ds 0 = n \<and> n < 2 ^ 31"
  then have num: "enum_of_long (strtol (CHR '' '' # ws @ ds @ r)) = n"
      "enum_of_long (strtol (CHR '' '' # ws @ ''+'' @ ds @ r)) = n"
      "enum_of_long (strtol (CHR '' '' # ws @ ''-'' @ ds @ r)) = - n"
    using strtol_number [of ws ds r] by simp_all
  from a have "opt_plus = [] \<or> opt_plus = ''+''"
    by simp
  then have "enum_of_long (strtol (CHR '' '' # ws @ opt_plus @ ds @ r)) = n"
    using num(1,2) by auto
  then show "parseHttpStatusCode (Some (pre @ CHR '' '' # ws @ opt_plus @ ds @ r)) =
            (if n = 200 then HTTP_OK
             else if n = 301 then HTTP_MOVED_PERMANENTLY
             else if n = 302 then HTTP_FOUND
             else if n = 307 then HTTP_TEMPORARY_REDIRECT
             else if n = 308 then HTTP_PERMANENT_REDIRECT
             else if n = 400 then HTTP_BAD_REQUEST
             else if n = 401 then HTTP_UNAUTHORIZED
             else if n = 403 then HTTP_FORBIDDEN
             else if n = 404 then HTTP_NOT_FOUND
             else HTTP_STATUS_NOT_IMPL)"
    using a by (simp add: parseHttpStatusCode_def strchr_first status_switch_def)
  have "0 \<le> n"
    using a digits_value_nonneg [of 0 ds] by auto
  then have "status_switch (- n) = HTTP_STATUS_NOT_IMPL"
    by (simp add: status_switch_not_positive)
  then show "parseHttpStatusCode (Some (pre @ CHR '' '' # ws @ ''-'' @ ds @ r))
             = HTTP_STATUS_NOT_IMPL"
    using a num(3) by (simp add: parseHttpStatusCode_def strchr_first)
next
  assume a: "CHR '' '' \<notin> set pre
        \<and> (case dropWhile isspace rest of
              [] \<Rightarrow> True
            | c # t \<Rightarrow>
                if c = CHR ''-'' \<or> c = CHR ''+'' then t = [] \<or> \<not> isdigit (hd t)
                else \<not> isdigit c)"
  then have "strtol (CHR '' '' # rest) = 0"
    using strtol_without_number [of rest] by simp
  then show "parseHttpStatusCode (Some (pre @ CHR '' '' # rest)) = HTTP_STATUS_NOT_IMPL"
    using a by (simp add: parseHttpStatusCode_def strchr_first status_switch_def enum_of_long_def)
qed

text \<open>The theorem at four status lines.\<close>

theorem parseHttpStatusCode_cases_witness:
  "parseHttpStatusCode (Some ''garbage'') = HTTP_STATUS_PARSE_ERR
   \<and> parseHttpStatusCode (Some ''HTTP/1.1  +404 Not Found'') = HTTP_NOT_FOUND
   \<and> parseHttpStatusCode (Some ''HTTP/1.1  -404 Not Found'') = HTTP_STATUS_NOT_IMPL
   \<and> parseHttpStatusCode (Some ''HTTP/1.1 -abc'') = HTTP_STATUS_NOT_IMPL"
  using parseHttpStatusCode_cases
          [of "''garbage''" "''HTTP/1.1''" "'' ''" "''+''" "''404''" "'' Not Found''" 404 "''-abc''"]
  by (simp add: isdigit_def isspace_def)

text \<open>
  Claim C2 as stated fails: with non-numeric text after the first space the function
  does not return \<^verbatim>\<open>HTTP_STATUS_PARSE_ERR\<close>.
\<close>

theorem parseHttpStatusCode_nonnumeric_counterexample:
  "parseHttpStatusCode (Some ''HTTP/1.1 abc'') = HTTP_STATUS_NOT_IMPL
   \<and> parseHttpStatusCode (Some ''HTTP/1.1 abc'') \<noteq> HTTP_STATUS_PARSE_ERR"
  by (simp add: parseHttpStatusCode_def strtol_def isspace_def isdigit_def status_switch_def
        enum_of_long_def LONG_MAX_def LONG_MIN_def)

subsection \<open>The parameter string\<close>

lemma initialize_example:
  "initialize ''example.com:80'' ''medusa'' (newModuleData FORM_UNKNOWN) = Inr example_config"
  by (simp add: initialize_def newModuleData_def example_config_def
        MODULE_DEFAULT_USERNAME_KEY_def MODULE_DEFAULT_PASSWORD_KEY_def
        MODULE_DEFAULT_DENY_SIGNAL_def)

text \<open>
  Claim C6, as amended. With the user key and the pass key set, and a password of
  ASCII bytes (or any password where \<^verbatim>\<open>char\<close> is unsigned),
  \<open>prepareRequestParamString\<close> produces exactly
  \<^verbatim>\<open><userKey><login>&<passKey><encoded password><rest>\<close>, with a leading question mark
  for a GET form. The encoded password is the concatenation of the encodings of its
  bytes (a byte of \<open>[A-Za-z0-9]\<close> unchanged, any other as a percent sign and two
  upper-case hexadecimal digits); the login is copied as it is; the rest is empty
  when \<^verbatim>\<open>formRest\<close> is empty or absent, and an ampersand followed by \<^verbatim>\<open>formRest\<close>
  otherwise. The function does not read \<^verbatim>\<open>changedRequestType\<close> (its caller does), so
  the statement holds for either value of the flag; the form type \<^verbatim>\<open>FORM_UNKNOWN\<close>,
  which a finalised configuration never has, ends in \<^verbatim>\<open>abort()\<close>.
\<close>

theorem prepareRequestParamString_format:
  assumes "formUserKey md = Some userKey" and "formPassKey md = Some passKey"
    and "schar \<longrightarrow> (\<forall>c \<in> set password. (of_char c :: int) < 128)"
    and "rest = (case formRest md of
                   None \<Rightarrow> []
                 | Some r \<Rightarrow> if r = [] then [] else ''&'' @ r)"
  shows "prepareRequestParamString schar md login password =
           (case formType md of
              FORM_GET \<Rightarrow>
                Inr (''?'' @ userKey @ login @ ''&'' @ passKey
                     @ concat (map percent_byte password) @ rest)
            | FORM_POST \<Rightarrow>
                Inr (userKey @ login @ ''&'' @ passKey
                     @ concat (map percent_byte password) @ rest)
            | FORM_UNKNOWN \<Rightarrow> Inl Abort)"
proof -
  have enc: "urlencodeup schar password = Inr (concat (map percent_byte password))"
    by (rule urlencodeup_bytes [OF assms(3)])
  have "(case formRest md of None \<Rightarrow> [] | Some [] \<Rightarrow> [] | Some (r # rs) \<Rightarrow> ''&'' @ r # rs) = rest"
    using assms(4) by (simp split: option.splits list.splits)
  with assms(1,2) enc show ?thesis
    by (simp add: prepareRequestParamString_def printf_s_def split: FormTypeT.splits)
qed

text \<open>The theorem at a GET form with further fields and at the default POST form.\<close>

theorem prepareRequestParamString_format_witness:
  "prepareRequestParamString True
       (example_config\<lparr>formType := FORM_GET, formRest := Some ''submit=True''\<rparr>)
       ''al ice'' ''p@ss''
     = Inr ''?username=al ice&password=p%40ss&submit=True''
   \<and> prepareRequestParamString True example_config ''al ice'' ''p@ss''
     = Inr ''username=al ice&password=p%40ss''"
  using prepareRequestParamString_format
          [of "example_config\<lparr>formType := FORM_GET, formRest := Some ''submit=True''\<rparr>"
              "''username=''" "''password=''" True "''p@ss''" "''&submit=True''" "''al ice''"]
        prepareRequestParamString_format
          [of example_config "''username=''" "''password=''" True "''p@ss''" "[]" "''al ice''"]
  by (simp add: example_config_def percent_byte_def is_alnum_def hexdigit_def)

text \<open>
  Claim C6 as stated fails for a password with a byte of 128 or more where \<^verbatim>\<open>char\<close>
  is signed: the two bytes of a UTF-8 \<^verbatim>\<open>e\<close> with an acute accent are sent as
  \<^verbatim>\<open>%FF%FF\<close>, not as \<^verbatim>\<open>%C3%A9\<close>, and for the one-byte password \<open>0xE9\<close> the encoder
  writes past its buffer, so no string is produced.
\<close>

theorem prepareRequestParamString_signed_counterexample:
  "prepareRequestParamString True example_config ''alice'' (''secret'' @ [CHR 0xC3, CHR 0xA9])
     = Inr ''username=alice&password=secret%FF%FF''
   \<and> concat (map percent_byte (''secret'' @ [CHR 0xC3, CHR 0xA9])) = ''secret%C3%A9''
   \<and> prepareRequestParamString True example_config ''alice'' [CHR 0xE9] = Inl OutOfBounds"
  by code_simp

subsection \<open>The location of a redirect\<close>

lemma tolower_http:
  "tolower CHR ''h'' = CHR ''h''" "tolower CHR ''t'' = CHR ''t''" "tolower CHR ''p'' = CHR ''p''"
  by (simp_all add: tolower_def)

lemma http_prefix:
  assumes "4 < length p"
  shows "(strcasestr (take 4 p) ''http'' \<noteq> None) = (map tolower (take 4 p) = ''http'')"
proof -
  from assms obtain a b c d t where p: "p = a # b # c # d # t"
    by (cases p; cases "tl p"; cases "tl (tl p)"; cases "tl (tl (tl p))") auto
  show ?thesis
    by (auto simp: p tolower_http)
qed

lemma pathType_absolute: "take 1 p = ''/'' \<Longrightarrow> pathType (Some p) = PATHTYPE_ABSOLUTE"
  by (simp add: pathType_def)

lemma pathType_uri:
  assumes "4 < length p" and "map tolower (take 4 p) = ''http''"
  shows "pathType (Some p) = PATHTYPE_URI"
proof -
  have "take 1 p \<noteq> ''/''"
    using assms by (cases p) (auto simp: tolower_def split: if_splits)
  then show ?thesis
    using assms http_prefix [OF assms(1)] by (simp add: pathType_def)
qed

lemma pathType_relative:
  assumes "take 1 p \<noteq> ''/''" and "map tolower (take 4 p) \<noteq> ''http''"
  shows "pathType (Some p) = PATHTYPE_RELATIVE"
proof (cases "4 < length p")
  case True
  then show ?thesis
    using assms http_prefix [OF True] by (simp add: pathType_def)
next
  case False
  then show ?thesis
    using assms by (simp add: pathType_def)
qed

text \<open>
  Claim C8, as amended. \<open>resolveLocationPath\<close> cuts the location at its first question
  mark. A target that begins with a slash replaces \<^verbatim>\<open>resourcePath\<close>. A target of more
  than four characters whose first four are \<^verbatim>\<open>http\<close>, whatever their case, replaces
  both \<^verbatim>\<open>hostHeader\<close> and \<^verbatim>\<open>resourcePath\<close>. A target that neither begins with a
  slash nor has \<^verbatim>\<open>http\<close> as its first four characters is relative, and so is the
  empty target: the old \<^verbatim>\<open>resourcePath\<close> moves to \<^verbatim>\<open>resourcePathOld\<close> and
  \<^verbatim>\<open>resourcePath\<close> becomes what \<^verbatim>\<open>resolvePath\<close> returns. An absent location is a null
  pointer given to \<^verbatim>\<open>strchr\<close>; only \<open>pathType\<close> on its own maps it to
  \<^verbatim>\<open>PATHTYPE_UNKNOWN\<close>.
\<close>

theorem resolveLocationPath_cases:
  "(take 1 (takeWhile (\<lambda>c. c \<noteq> CHR ''?'') loc) = ''/''
      \<longrightarrow> resolveLocationPath e (Some loc) md
            = Inr (md\<lparr>resourcePath := Some (takeWhile (\<lambda>c. c \<noteq> CHR ''?'') loc)\<rparr>))
   \<and> (4 < length (takeWhile (\<lambda>c. c \<noteq> CHR ''?'') loc)
        \<and> map tolower (take 4 (takeWhile (\<lambda>c. c \<noteq> CHR ''?'') loc)) = ''http''
      \<longrightarrow> resolveLocationPath e (Some loc) md
            = Inr (md\<lparr>hostHeader := Some (takeWhile (\<lambda>c. c \<noteq> CHR ''?'') loc),
                      resourcePath := Some (takeWhile (\<lambda>c. c \<noteq> CHR ''?'') loc)\<rparr>))
   \<and> (take 1 (takeWhile (\<lambda>c. c \<noteq> CHR ''?'') loc) \<noteq> ''/''
        \<and> map tolower (take 4 (takeWhile (\<lambda>c. c \<noteq> CHR ''?'') loc)) \<noteq> ''http''
      \<longrightarrow> resolveLocationPath e (Some loc) md
            = Inr (md\<lparr>resourcePathOld := resourcePath md,
                      resourcePath := resolvePath e (resourcePath md)
                                        (takeWhile (\<lambda>c. c \<noteq> CHR ''?'') loc)\<rparr>))
   \<and> (takeWhile (\<lambda>c. c \<noteq> CHR ''?'') loc = []
      \<longrightarrow> resolveLocationPath e (Some loc) md
            = Inr (md\<lparr>resourcePathOld := resourcePath md,
                      resourcePath := resolvePath e (resourcePath md) []\<rparr>))
   \<and> resolveLocationPath e None md = Inl NullPointer
   \<and> pathType None = PATHTYPE_UNKNOWN"
proof (intro conjI impI)
  let ?t = "takeWhile (\<lambda>c. c \<noteq> CHR ''?'') loc"
  show "resolveLocationPath e None md = Inl NullPointer"
    by (simp add: resolveLocationPath_def Let_def)
  show "pathType None = PATHTYPE_UNKNOWN"
    by (simp add: pathType_def)
  {
    assume "take 1 ?t = ''/''"
    then show "resolveLocationPath e (Some loc) md = Inr (md\<lparr>resourcePath := Some ?t\<rparr>)"
      by (simp add: resolveLocationPath_def Let_def pathType_absolute)
  next
    assume "4 < length ?t \<and> map tolower (take 4 ?t) = ''http''"
    then have "pathType (Some ?t) = PATHTYPE_URI"
      by (simp add: pathType_uri)
    then show "resolveLocationPath e (Some loc) md
               = Inr (md\<lparr>hostHeader := Some ?t, resourcePath := Some ?t\<rparr>)"
      by (simp add: resolveLocationPath_def Let_def)
  next
    assume "take 1 ?t \<noteq> ''/'' \<and> map tolower (take 4 ?t) \<noteq> ''http''"
    then have "pathType (Some ?t) = PATHTYPE_RELATIVE"
      by (simp add: pathType_relative)
    then show "resolveLocationPath e (Some loc) md
               = Inr (md\<lparr>resourcePathOld := resourcePath md,
                         resourcePath := resolvePath e (resourcePath md) ?t\<rparr>)"
      by (simp add: resolveLocationPath_def Let_def)
  next
    assume empty: "?t = []"
    have "pathType (Some []) = PATHTYPE_RELATIVE"
      by (simp add: pathType_def)
    then show "resolveLocationPath e (Some loc) md
               = Inr (md\<lparr>resourcePathOld := resourcePath md,
                         resourcePath := resolvePath e (resourcePath md) []\<rparr>)"
      by (simp add: resolveLocationPath_def Let_def empty)
  }
qed

text \<open>The theorem at an absolute, a URI, a relative and a query-only location.\<close>

theorem resolveLocationPath_cases_witness:
  "resolveLocationPath example_env (Some ''/app/home?x=1'') example_config
     = Inr (example_config\<lparr>resourcePath := Some ''/app/home''\<rparr>)
   \<and> resolveLocationPath example_env (Some ''HTTPS://other.example/login?next=1'') example_config
     = Inr (example_config\<lparr>hostHeader := Some ''HTTPS://other.example/login'',
                            resourcePath := Some ''HTTPS://other.example/login''\<rparr>)
   \<and> resolveLocationPath example_env (Some ''welcome.php'') example_config
     = Inr (example_config\<lparr>resourcePathOld := Some ''/'', resourcePath := Some ''/welcome.php''\<rparr>)
   \<and> resolveLocationPath example_env (Some ''?next=home'') example_config
     = Inr (example_config\<lparr>resourcePathOld := Some ''/'', resourcePath := Some ''/''\<rparr>)"
  using resolveLocationPath_cases [of "''/app/home?x=1''" example_env example_config]
        resolveLocationPath_cases [of "''HTTPS://other.example/login?next=1''" example_env example_config]
        resolveLocationPath_cases [of "''welcome.php''" example_env example_config]
        resolveLocationPath_cases [of "''?next=home''" example_env example_config]
  by (simp add: tolower_def example_env_def example_config_def)

text \<open>
  Claim C8 as stated fails at the empty target (the location \<^verbatim>\<open>?next=home\<close> after the
  cut): it is classified relative, not unknown, and \<^verbatim>\<open>resourcePath\<close> is assigned what
  \<^verbatim>\<open>resolvePath\<close> returns, here the root for the base path \<^verbatim>\<open>/login\<close>.
\<close>

theorem resolveLocationPath_empty_counterexample:
  "pathType (Some []) = PATHTYPE_RELATIVE
   \<and> pathType (Some []) \<noteq> PATHTYPE_UNKNOWN
   \<and> resolveLocationPath example_env (Some ''?next=home'')
        (example_config\<lparr>resourcePath := Some ''/login''\<rparr>)
      = Inr (example_config\<lparr>resourcePath := Some ''/'', resourcePathOld := Some ''/login''\<rparr>)
   \<and> Some ''/'' \<noteq> Some ''/login''"
  by (simp add: pathType_def resolveLocationPath_def Let_def example_env_def example_config_def)

subsection \<open>One round trip\<close>

lemma resolveLocationPath_frame:
  assumes "resolveLocationPath e loc md = Inr md'"
  shows "formType md' = formType md \<and> changedRequestType md' = changedRequestType md"
  using assms
  by (auto simp: resolveLocationPath_def Let_def split: option.splits PathTypeT.splits)

lemma setCookies_loop_frame:
  "setCookies_loop md p = Inr md'
     \<Longrightarrow> formType md' = formType md \<and> changedRequestType md' = changedRequestType md"
proof (induction md p rule: setCookies_loop.induct)
  case (1 md prevPos)
  show ?case
    using "1.prems" "1.IH"
    by (subst (asm) setCookies_loop.simps)
       (auto split: sum.splits option.splits prod.splits)
qed

lemma setCookiesFromResponse_frame:
  "setCookiesFromResponse md r = Inr md'
     \<Longrightarrow> formType md' = formType md \<and> changedRequestType md' = changedRequestType md"
  by (auto simp: setCookiesFromResponse_def split: option.splits dest: setCookies_loop_frame)

lemma follow_redirect_cases:
  assumes "follow_redirect e sc md lg pw buf = Inr (st, md', lg')"
  shows "(st = MSTATE_EXITING \<and> md' = md \<and> lg' = setPasswordHelper lg pw LOGIN_RESULT_UNKNOWN)
         \<or> (st = MSTATE_NEW \<and> lg' = lg
             \<and> (\<exists>md2. formType md2 = formType md
                    \<and> changedRequestType md2 = changedRequestType md
                    \<and> md' = (if formType md2 = FORM_POST
                                 \<and> (sc = HTTP_MOVED_PERMANENTLY \<or> sc = HTTP_FOUND)
                              then md2\<lparr>changedRequestType := True, formType := FORM_GET\<rparr>
                              else md2)))"
proof (cases "findLocationHeaderValue buf")
  case (Inl f)
  with assms show ?thesis
    by (simp add: follow_redirect_def)
next
  case (Inr v)
  show ?thesis
  proof (cases v)
    case None
    with Inr assms show ?thesis
      by (simp add: follow_redirect_def)
  next
    case (Some loc)
    from assms Inr Some obtain md1 md2 where
      r: "resolveLocationPath e (Some loc) md = Inr md1" and
      c: "setCookiesFromResponse md1 buf = Inr md2" and
      res: "st = MSTATE_NEW" "lg' = lg"
        "md' = (if formType md2 = FORM_POST
                   \<and> (sc = HTTP_MOVED_PERMANENTLY \<or> sc = HTTP_FOUND)
                then md2\<lparr>changedRequestType := True, formType := FORM_GET\<rparr> else md2)"
      by (auto simp: follow_redirect_def split: sum.splits)
    have "formType md2 = formType md \<and> changedRequestType md2 = changedRequestType md"
      using resolveLocationPath_frame [OF r] setCookiesFromResponse_frame [OF c] by simp
    with res show ?thesis
      by blast
  qed
qed

lemma request_received:
  assumes "formType md \<noteq> FORM_UNKNOWN"
    and "sendRequest (char_signed e) hSocket md u pw = Inr True"
    and "rx hSocket = l # ls"
  shows "request e hSocket md lg u pw = Inr (1, Some l, lg, ls)"
  using assms by (cases "formType md") (simp_all add: request_def medusaReceiveLine_def)

lemma request_cases:
  assumes "request e hSocket md lg u pw = Inr (ret, buf, lg1, lines)"
  shows "(buf = None)
         \<or> (\<exists>l. buf = Some l \<and> rx hSocket = l # lines \<and> lg1 = lg \<and> ret = 1
               \<and> formType md \<noteq> FORM_UNKNOWN)"
  using assms
  by (cases "formType md")
     (auto simp: request_def medusaReceiveLine_def split: sum.splits bool.splits list.splits)

lemma tryLogin_cases:
  assumes "tryLogin e hSocket md lg u pw = Inr (st, md', lg')"
  shows "(st = MSTATE_EXITING \<and> md' = md)
         \<or> (\<exists>l ls. rx hSocket = l # ls \<and> formType md \<noteq> FORM_UNKNOWN
               \<and> ((parseHttpStatusCode (Some l) = HTTP_OK
                     \<and> verdict (restore_after_redirect md) lg pw (Some l) ls = Inr (st, md', lg'))
                   \<or> (parseHttpStatusCode (Some l)
                         \<in> {HTTP_MOVED_PERMANENTLY, HTTP_FOUND, HTTP_TEMPORARY_REDIRECT,
                             HTTP_PERMANENT_REDIRECT}
                       \<and> follow_redirect e (parseHttpStatusCode (Some l)) md lg pw (Some l)
                           = Inr (st, md', lg'))))"
proof -
  from assms obtain ret buf lg1 lines where
    rq: "request e hSocket md lg u pw = Inr (ret, buf, lg1, lines)"
    by (auto simp: tryLogin_def split: sum.splits)
  show ?thesis
  proof (cases buf)
    case None
    with assms rq show ?thesis
      by (auto simp: tryLogin_def parseHttpStatusCode_def split: if_splits)
  next
    case (Some l)
    with request_cases [OF rq] have
      l: "rx hSocket = l # lines" "lg1 = lg" "ret = 1" "formType md \<noteq> FORM_UNKNOWN"
      by auto
    show ?thesis
      using assms rq Some l
      by (cases "parseHttpStatusCode (Some l)") (auto simp: tryLogin_def)
  qed
qed

lemma verdict_md: "verdict md lg pw buf ls = Inr (st, md', lg') \<Longrightarrow> md' = md \<and> st = MSTATE_NEW"
  by (auto simp: verdict_def split: sum.splits)

lemma starts_with_ci_iff:
  "starts_with_ci s n = (\<exists>suf. map tolower s = map tolower n @ suf)"
  by (induction s n rule: starts_with_ci.induct) auto

lemma strcasestr_contains_ci: "(strcasestr s n \<noteq> None) = contains_ci s n"
proof (induction s)
  case Nil
  then show ?case by (simp add: contains_ci_def)
next
  case (Cons h hs)
  have "contains_ci (h # hs) n = (starts_with_ci (h # hs) n \<or> contains_ci hs n)"
  proof
    assume "contains_ci (h # hs) n"
    then obtain pre suf where ps: "tolower h # map tolower hs = pre @ map tolower n @ suf"
      by (auto simp: contains_ci_def)
    show "starts_with_ci (h # hs) n \<or> contains_ci hs n"
    proof (cases pre)
      case Nil
      with ps show ?thesis
        by (auto simp: starts_with_ci_iff)
    next
      case (Cons x pre')
      with ps have "map tolower hs = pre' @ map tolower n @ suf"
        by simp
      then show ?thesis
        by (auto simp: contains_ci_def)
    qed
  next
    assume "starts_with_ci (h # hs) n \<or> contains_ci hs n"
    then show "contains_ci (h # hs) n"
    proof
      assume "starts_with_ci (h # hs) n"
      then obtain suf where "map tolower (h # hs) = [] @ map tolower n @ suf"
        by (auto simp: starts_with_ci_iff)
      then show ?thesis
        unfolding contains_ci_def by blast
    next
      assume "contains_ci hs n"
      then obtain pre suf where "map tolower hs = pre @ map tolower n @ suf"
        by (auto simp: contains_ci_def)
      then have "map tolower (h # hs) = (tolower h # pre) @ map tolower n @ suf"
        by simp
      then show ?thesis
        unfolding contains_ci_def by blast
    qed
  qed
  with Cons show ?case
    by auto
qed

lemma denySignalFound_scanned:
  "denySignalFound (Some d) buf lines
     = Inr (\<exists>x \<in> set (scanned_lines buf lines). contains_ci x d)"
proof (induction lines arbitrary: buf)
  case Nil
  show ?case
    by (auto simp: denySignalFound.simps [of _ buf] scanned_lines_def
          strcasestr_contains_ci [symmetric])
next
  case (Cons l ls)
  show ?case
    using Cons [of l]
    by (auto simp: denySignalFound.simps [of _ buf] scanned_lines_def
          strcasestr_contains_ci [symmetric])
qed

lemma sendRequest_changed:
  assumes "changedRequestType md" "formType md \<noteq> FORM_UNKNOWN"
  shows "sendRequest schar hSocket md u pw = Inr (\<not> send_fails hSocket)"
  using assms by (cases "formType md") (simp_all add: sendRequest_def prepareRequestString_def)

lemma tryLogin_ok:
  assumes "formType md \<noteq> FORM_UNKNOWN"
    and "sendRequest (char_signed e) hSocket md u pw = Inr True"
    and "rx hSocket = l # ls"
    and "parseHttpStatusCode (Some l) = HTTP_OK"
    and "denySignal md = Some d"
  shows "tryLogin e hSocket md lg u pw =
           Inr (MSTATE_NEW, restore_after_redirect md,
                setPassResult
                  (lg\<lparr>iResult := (if \<exists>x \<in> set (scanned_lines l ls). contains_ci x d
                                   then LOGIN_RESULT_FAIL else LOGIN_RESULT_SUCCESS)\<rparr>) pw)"
proof -
  have "denySignal (restore_after_redirect md) = Some d"
    using assms(5) by (simp add: restore_after_redirect_def)
  then show ?thesis
    using request_received [OF assms(1-3), of lg] assms(4)
    by (simp add: tryLogin_def verdict_def denySignalFound_scanned)
qed

lemma resolveLocationPath_returns:
  "\<exists>md1. resolveLocationPath e (Some loc) md = Inr md1
         \<and> cookieJar md1 = cookieJar md \<and> formType md1 = formType md
         \<and> changedRequestType md1 = changedRequestType md"
  by (simp add: resolveLocationPath_def Let_def split: PathTypeT.splits)

lemma setCookies_loop_other:
  "setCookies_loop md p = Inr mdc \<Longrightarrow> cookieJar md1 = cookieJar md
     \<Longrightarrow> setCookies_loop md1 p = Inr (md1\<lparr>cookieJar := cookieJar mdc\<rparr>)"
proof (induction md p arbitrary: md1 rule: setCookies_loop.induct)
  case (1 md prevPos)
  let ?h = "findHeaderValue (CHR 0x0D # CHR 0x0A # ''Set-Cookie:'') (Some prevPos)"
  from "1.prems"(1) obtain v p where h: "?h = Inr (v, p)"
    by (subst (asm) setCookies_loop.simps) (auto split: sum.splits)
  have same: "md1\<lparr>cookieJar := cookieJar md\<rparr> = md1"
    using "1.prems"(2) [symmetric] by simp
  show ?case
  proof (cases "\<exists>v' p'. v = Some v' \<and> p = Some p'")
    case False
    then have stop: "\<And>m. setCookies_loop m prevPos = Inr m"
      using h by (subst setCookies_loop.simps) (auto split: option.splits)
    from "1.prems"(1) have "mdc = md"
      by (simp add: stop)
    then show ?thesis
      by (simp add: stop same)
  next
    case True
    then obtain v' p' where vp: "v = Some v'" "p = Some p'"
      by blast
    from "1.prems"(1) h vp obtain jar where
      jar: "cookieJar md = Some jar" and
      rec: "setCookies_loop (md\<lparr>cookieJar := Some (add_cookie jar v')\<rparr>) p' = Inr mdc"
      by (subst (asm) setCookies_loop.simps) (auto split: option.splits)
    have "setCookies_loop (md1\<lparr>cookieJar := Some (add_cookie jar v')\<rparr>) p'
          = Inr (md1\<lparr>cookieJar := Some (add_cookie jar v')\<rparr>\<lparr>cookieJar := cookieJar mdc\<rparr>)"
      using "1.IH" [OF h refl vp(1) vp(2) jar rec] by simp
    then show ?thesis
      using h vp jar "1.prems"(2)
      by (subst setCookies_loop.simps) simp
  qed
qed

lemma setCookiesFromResponse_other:
  "setCookiesFromResponse md r = Inr mdc \<Longrightarrow> cookieJar md1 = cookieJar md
     \<Longrightarrow> setCookiesFromResponse md1 r = Inr (md1\<lparr>cookieJar := cookieJar mdc\<rparr>)"
  by (cases r) (auto simp: setCookiesFromResponse_def dest: setCookies_loop_other)

lemma follow_redirect_followed:
  assumes "findLocationHeaderValue buf = Inr (Some loc)"
    and "setCookiesFromResponse md buf = Inr mdc"
  shows "\<exists>md1. resolveLocationPath e (Some loc) md = Inr md1
           \<and> follow_redirect e sc md lg pw buf =
               Inr (MSTATE_NEW,
                    (if formType md = FORM_POST
                        \<and> (sc = HTTP_MOVED_PERMANENTLY \<or> sc = HTTP_FOUND)
                     then md1\<lparr>cookieJar := cookieJar mdc, changedRequestType := True,
                              formType := FORM_GET\<rparr>
                     else md1\<lparr>cookieJar := cookieJar mdc\<rparr>),
                    lg)"
proof -
  from resolveLocationPath_returns [of e loc md] obtain md1 where
    r: "resolveLocationPath e (Some loc) md = Inr md1" and
    f: "cookieJar md1 = cookieJar md" "formType md1 = formType md"
    by blast
  have c: "setCookiesFromResponse md1 buf = Inr (md1\<lparr>cookieJar := cookieJar mdc\<rparr>)"
    by (rule setCookiesFromResponse_other [OF assms(2) f(1)])
  show ?thesis
    using assms(1) r c f(2) by (simp add: follow_redirect_def)
qed

lemma tryLogin_redirect:
  assumes "formType md \<noteq> FORM_UNKNOWN"
    and "sendRequest (char_signed e) hSocket md u pw = Inr True"
    and "rx hSocket = l # ls"
    and "parseHttpStatusCode (Some l)
           \<in> {HTTP_MOVED_PERMANENTLY, HTTP_FOUND, HTTP_TEMPORARY_REDIRECT,
               HTTP_PERMANENT_REDIRECT}"
  shows "tryLogin e hSocket md lg u pw
         = follow_redirect e (parseHttpStatusCode (Some l)) md lg pw (Some l)"
  using request_received [OF assms(1-3), of lg] assms(4)
  by (auto simp: tryLogin_def)

text \<open>
  Claim C3. Let \<open>l\<close> be the first line the connection delivers.

  Whenever \<open>tryLogin\<close> returns: when the status of \<open>l\<close> is 307 or 308, the form
  type and \<^verbatim>\<open>changedRequestType\<close> are unchanged. When it is 301 or 302: from POST, a
  followed redirect (the result \<^verbatim>\<open>MSTATE_NEW\<close>) leaves the form type GET with
  \<^verbatim>\<open>changedRequestType\<close> set, and a redirect that is not followed leaves the
  configuration as it was; from any other form type, GET among them, the form type
  and the flag are unchanged, so GET never becomes POST.

  And a redirect with a location is followed: when the request went out, \<open>l\<close> holds
  a \<^verbatim>\<open>Location\<close> header and its \<^verbatim>\<open>Set-Cookie\<close> headers can be read, the location is
  resolved into a configuration \<open>md1\<close> with the form type and the flag of before, the
  cookies are added, and \<open>tryLogin\<close> returns \<^verbatim>\<open>MSTATE_NEW\<close> with no verdict: for 301
  and 302 from POST with the form type GET and \<^verbatim>\<open>changedRequestType\<close> set, for 301 and
  302 from GET and for 307 and 308 with the form type and the flag as they were.
\<close>

theorem tryLogin_redirect_method:
  "(tryLogin e hSocket md lg u pw = Inr (st, md', lg') \<and> rx hSocket = l # ls
      \<longrightarrow> (parseHttpStatusCode (Some l) \<in> {HTTP_TEMPORARY_REDIRECT, HTTP_PERMANENT_REDIRECT}
            \<longrightarrow> formType md' = formType md \<and> changedRequestType md' = changedRequestType md)
          \<and> (parseHttpStatusCode (Some l) \<in> {HTTP_MOVED_PERMANENTLY, HTTP_FOUND}
            \<longrightarrow> (formType md = FORM_POST \<and> st = MSTATE_NEW
                    \<longrightarrow> formType md' = FORM_GET \<and> changedRequestType md')
                \<and> (formType md = FORM_POST \<and> st \<noteq> MSTATE_NEW \<longrightarrow> md' = md)
                \<and> (formType md \<noteq> FORM_POST
                    \<longrightarrow> formType md' = formType md
                        \<and> changedRequestType md' = changedRequestType md)))
   \<and> (formType md \<noteq> FORM_UNKNOWN
        \<and> sendRequest (char_signed e) hSocket md u pw = Inr True
        \<and> rx hSocket = l # ls
        \<and> findLocationHeaderValue (Some l) = Inr (Some loc)
        \<and> setCookiesFromResponse md (Some l) = Inr mdc
      \<longrightarrow> (\<exists>md1. resolveLocationPath e (Some loc) md = Inr md1
             \<and> formType md1 = formType md
             \<and> changedRequestType md1 = changedRequestType md
             \<and> (parseHttpStatusCode (Some l) \<in> {HTTP_MOVED_PERMANENTLY, HTTP_FOUND}
                   \<and> formType md = FORM_POST
                 \<longrightarrow> tryLogin e hSocket md lg u pw =
                       Inr (MSTATE_NEW,
                            md1\<lparr>cookieJar := cookieJar mdc, changedRequestType := True,
                               formType := FORM_GET\<rparr>,
                            lg))
             \<and> (parseHttpStatusCode (Some l) \<in> {HTTP_MOVED_PERMANENTLY, HTTP_FOUND}
                   \<and> formType md = FORM_GET
                 \<longrightarrow> tryLogin e hSocket md lg u pw =
                       Inr (MSTATE_NEW, md1\<lparr>cookieJar := cookieJar mdc\<rparr>, lg))
             \<and> (parseHttpStatusCode (Some l)
                   \<in> {HTTP_TEMPORARY_REDIRECT, HTTP_PERMANENT_REDIRECT}
                 \<longrightarrow> tryLogin e hSocket md lg u pw =
                       Inr (MSTATE_NEW, md1\<lparr>cookieJar := cookieJar mdc\<rparr>, lg))))"
  (is "(?A \<longrightarrow> ?old) \<and> (?B \<longrightarrow> ?new)")
proof (rule conjI)
  show "?A \<longrightarrow> ?old"
  proof (rule impI)
    assume a: ?A
    from tryLogin_cases [of e hSocket md lg u pw st md' lg'] a consider
      (exit) "st = MSTATE_EXITING" "md' = md"
    | (ok) "parseHttpStatusCode (Some l) = HTTP_OK"
    | (redirect) "parseHttpStatusCode (Some l)
                    \<in> {HTTP_MOVED_PERMANENTLY, HTTP_FOUND, HTTP_TEMPORARY_REDIRECT,
                        HTTP_PERMANENT_REDIRECT}"
        "follow_redirect e (parseHttpStatusCode (Some l)) md lg pw (Some l) = Inr (st, md', lg')"
      by auto
    then show ?old
    proof cases
      case exit
      then show ?thesis by simp
    next
      case ok
      then show ?thesis by simp
    next
      case redirect
      from follow_redirect_cases [OF redirect(2)] show ?thesis
        by (elim disjE conjE exE) (simp, auto)
    qed
  qed
  show "?B \<longrightarrow> ?new"
  proof (rule impI)
    assume a: ?B
    let ?sc = "parseHttpStatusCode (Some l)"
    from a have loc: "findLocationHeaderValue (Some l) = Inr (Some loc)"
      and ck: "setCookiesFromResponse md (Some l) = Inr mdc"
      by simp_all
    from resolveLocationPath_returns [of e loc md] obtain md1 where
      r: "resolveLocationPath e (Some loc) md = Inr md1"
         "formType md1 = formType md" "changedRequestType md1 = changedRequestType md"
      by blast
    have fr: "\<And>sc. follow_redirect e sc md lg pw (Some l) =
                 Inr (MSTATE_NEW,
                      (if formType md = FORM_POST
                          \<and> (sc = HTTP_MOVED_PERMANENTLY \<or> sc = HTTP_FOUND)
                       then md1\<lparr>cookieJar := cookieJar mdc, changedRequestType := True,
                                formType := FORM_GET\<rparr>
                       else md1\<lparr>cookieJar := cookieJar mdc\<rparr>),
                      lg)"
      using follow_redirect_followed [OF loc ck, of e _ lg pw] r(1) by auto
    have tl: "?sc \<in> {HTTP_MOVED_PERMANENTLY, HTTP_FOUND, HTTP_TEMPORARY_REDIRECT,
                      HTTP_PERMANENT_REDIRECT}
              \<Longrightarrow> tryLogin e hSocket md lg u pw = follow_redirect e ?sc md lg pw (Some l)"
      using a tryLogin_redirect [of md e hSocket u pw l ls lg] by simp
    have "(?sc \<in> {HTTP_MOVED_PERMANENTLY, HTTP_FOUND} \<and> formType md = FORM_POST
             \<longrightarrow> tryLogin e hSocket md lg u pw =
                   Inr (MSTATE_NEW,
                        md1\<lparr>cookieJar := cookieJar mdc, changedRequestType := True,
                           formType := FORM_GET\<rparr>, lg))
          \<and> (?sc \<in> {HTTP_MOVED_PERMANENTLY, HTTP_FOUND} \<and> formType md = FORM_GET
             \<longrightarrow> tryLogin e hSocket md lg u pw =
                   Inr (MSTATE_NEW, md1\<lparr>cookieJar := cookieJar mdc\<rparr>, lg))
          \<and> (?sc \<in> {HTTP_TEMPORARY_REDIRECT, HTTP_PERMANENT_REDIRECT}
             \<longrightarrow> tryLogin e hSocket md lg u pw =
                   Inr (MSTATE_NEW, md1\<lparr>cookieJar := cookieJar mdc\<rparr>, lg))"
      using tl fr by auto
    with r show ?new
      by blast
  qed
qed

text \<open>The theorem at a 301 answer with a cookie to the default POST configuration.\<close>

theorem tryLogin_redirect_method_witness:
  "tryLogin example_env \<lparr>send_fails = False, rx = [response_301_cookie]\<rparr>
       example_config example_login ''alice'' ''secret''
     = Inr (MSTATE_NEW,
            example_config\<lparr>resourcePath := Some ''/app/home'',
                           cookieJar := Some (''Cookie: a=1'' @ CRLF),
                           changedRequestType := True, formType := FORM_GET\<rparr>,
            example_login)"
proof -
  let ?sock = "\<lparr>send_fails = False, rx = [response_301_cookie]\<rparr>"
  have st: "parseHttpStatusCode (Some response_301_cookie) = HTTP_MOVED_PERMANENTLY"
    by code_simp
  have send: "sendRequest (char_signed example_env) ?sock example_config ''alice'' ''secret''
              = Inr True"
    by code_simp
  have loc: "findLocationHeaderValue (Some response_301_cookie) = Inr (Some ''/app/home'')"
    by code_simp
  have ck: "setCookiesFromResponse example_config (Some response_301_cookie)
            = Inr (example_config\<lparr>cookieJar := Some (''Cookie: a=1'' @ CRLF)\<rparr>)"
    by code_simp
  have rs: "resolveLocationPath example_env (Some ''/app/home'') example_config
            = Inr (example_config\<lparr>resourcePath := Some ''/app/home''\<rparr>)"
    by code_simp
  have post: "formType example_config = FORM_POST"
    by (simp add: example_config_def)
  from tryLogin_redirect_method
         [of example_env ?sock example_config example_login "''alice''" "''secret''"
             MSTATE_NEW example_config example_login response_301_cookie "[]" "''/app/home''"
             "example_config\<lparr>cookieJar := Some (''Cookie: a=1'' @ CRLF)\<rparr>"]
       st send loc ck rs post
  show ?thesis
    by auto
qed

text \<open>
  Claim C4. When the request went out, the first line has the status 200 and
  \<^verbatim>\<open>changedRequestType\<close> is set, \<open>tryLogin\<close> clears the flag, sets the form type to
  POST, replaces \<^verbatim>\<open>resourcePath\<close> by \<^verbatim>\<open>resourcePathOld\<close>, leaves
  \<^verbatim>\<open>resourcePathOld\<close> absent and empties the cookie jar; the search for the deny signal
  runs on the configuration so restored, and the result is \<^verbatim>\<open>MSTATE_NEW\<close> with the
  verdict recorded.
\<close>

theorem tryLogin_ok_restores:
  assumes "changedRequestType md" and "formType md \<noteq> FORM_UNKNOWN"
    and "\<not> send_fails hSocket" and "rx hSocket = l # ls"
    and "parseHttpStatusCode (Some l) = HTTP_OK" and "denySignal md = Some d"
  shows "\<exists>found.
           denySignalFound
             (denySignal (md\<lparr>changedRequestType := False, formType := FORM_POST,
                             resourcePath := resourcePathOld md, resourcePathOld := None,
                             cookieJar := Some []\<rparr>)) l ls = Inr found
           \<and> tryLogin e hSocket md lg u pw =
               Inr (MSTATE_NEW,
                    md\<lparr>changedRequestType := False, formType := FORM_POST,
                       resourcePath := resourcePathOld md, resourcePathOld := None,
                       cookieJar := Some []\<rparr>,
                    setPassResult
                      (lg\<lparr>iResult := (if found then LOGIN_RESULT_FAIL
                                       else LOGIN_RESULT_SUCCESS)\<rparr>) pw)"
proof -
  have "sendRequest (char_signed e) hSocket md u pw = Inr True"
    using sendRequest_changed [OF assms(1,2)] assms(3) by simp
  from tryLogin_ok [OF assms(2) this assms(4,5,6)] show ?thesis
    using assms(1,6) by (simp add: restore_after_redirect_def denySignalFound_scanned)
qed

text \<open>The theorem at a configuration in the middle of a method-changing redirect.\<close>

theorem tryLogin_ok_restores_witness:
  "tryLogin example_env \<lparr>send_fails = False, rx = [''HTTP/1.1 200 OK'' @ CRLF, ''Welcome!'']\<rparr>
       (example_config\<lparr>resourcePath := Some ''/login/v2'', resourcePathOld := Some ''/login/'',
                        cookieJar := Some (''Cookie: a=1'' @ CRLF), formType := FORM_GET,
                        changedRequestType := True\<rparr>)
       example_login ''alice'' ''secret''
     = Inr (MSTATE_NEW,
            example_config\<lparr>resourcePath := Some ''/login/'', resourcePathOld := None,
                           cookieJar := Some [], formType := FORM_POST,
                           changedRequestType := False\<rparr>,
            \<lparr>iResult = LOGIN_RESULT_SUCCESS,
             passResults = [(''letmein'', LOGIN_RESULT_FAIL), (''secret'', LOGIN_RESULT_SUCCESS)]\<rparr>)"
proof -
  let ?md = "example_config\<lparr>resourcePath := Some ''/login/v2'', resourcePathOld := Some ''/login/'',
                        cookieJar := Some (''Cookie: a=1'' @ CRLF), formType := FORM_GET,
                        changedRequestType := True\<rparr>"
  let ?l = "''HTTP/1.1 200 OK'' @ CRLF"
  have st: "parseHttpStatusCode (Some ?l) = HTTP_OK"
    by code_simp
  have scan: "denySignalFound (Some ''Login incorrect'') ?l [''Welcome!''] = Inr False"
    by code_simp
  from tryLogin_ok_restores
         [of ?md "\<lparr>send_fails = False, rx = [?l, ''Welcome!'']\<rparr>" ?l "[''Welcome!'']"
             "''Login incorrect''" example_env example_login "''alice''" "''secret''"]
       st scan
  show ?thesis
    by (auto simp: example_config_def example_login_def setPassResult_def)
qed

text \<open>
  Claim C9, as amended. When the request went out and the first line has the status
  200, the search reads the receive buffer that holds the status line and then the
  following lines up to the first empty one (or the end). The verdict is
  \<^verbatim>\<open>LOGIN_RESULT_FAIL\<close> if and only if one of these contains the deny signal as a
  case-insensitive substring, and \<^verbatim>\<open>LOGIN_RESULT_SUCCESS\<close> otherwise; in either case
  the verdict is recorded with the password and \<open>tryLogin\<close> returns \<^verbatim>\<open>MSTATE_NEW\<close>.
\<close>

theorem tryLogin_verdict:
  assumes "formType md \<noteq> FORM_UNKNOWN"
    and "sendRequest (char_signed e) hSocket md u pw = Inr True"
    and "rx hSocket = l # ls"
    and "parseHttpStatusCode (Some l) = HTTP_OK"
    and "denySignal md = Some d"
  shows "\<exists>v. tryLogin e hSocket md lg u pw =
               Inr (MSTATE_NEW, restore_after_redirect md, setPassResult (lg\<lparr>iResult := v\<rparr>) pw)
             \<and> (v = LOGIN_RESULT_FAIL) = (\<exists>x \<in> set (scanned_lines l ls). contains_ci x d)
             \<and> (v = LOGIN_RESULT_SUCCESS) = (\<not> (\<exists>x \<in> set (scanned_lines l ls). contains_ci x d))
             \<and> scanned_lines l ls = takeWhile (\<lambda>x. x \<noteq> []) (l # ls)"
proof -
  let ?hit = "\<exists>x \<in> set (scanned_lines l ls). contains_ci x d"
  let ?v = "if ?hit then LOGIN_RESULT_FAIL else LOGIN_RESULT_SUCCESS"
  have run: "tryLogin e hSocket md lg u pw =
               Inr (MSTATE_NEW, restore_after_redirect md, setPassResult (lg\<lparr>iResult := ?v\<rparr>) pw)"
    by (rule tryLogin_ok [OF assms])
  have fail: "(?v = LOGIN_RESULT_FAIL) = ?hit"
    by simp
  have success: "(?v = LOGIN_RESULT_SUCCESS) = (\<not> ?hit)"
    by simp
  have lines: "scanned_lines l ls = takeWhile (\<lambda>x. x \<noteq> []) (l # ls)"
    by (simp only: scanned_lines_def)
  from run fail success lines show ?thesis
    by blast
qed

text \<open>The theorem at an answer whose body holds the default deny signal in capitals.\<close>

theorem tryLogin_verdict_witness:
  "tryLogin example_env
       \<lparr>send_fails = False,
        rx = [''HTTP/1.1 200 OK'' @ CRLF, CRLF, ''Sorry: LOGIN INCORRECT.'', [], ''never read'']\<rparr>
       example_config example_login ''alice'' ''secret''
     = Inr (MSTATE_NEW, example_config,
            \<lparr>iResult = LOGIN_RESULT_FAIL,
             passResults = [(''letmein'', LOGIN_RESULT_FAIL), (''secret'', LOGIN_RESULT_FAIL)]\<rparr>)"
proof -
  let ?l = "''HTTP/1.1 200 OK'' @ CRLF"
  let ?ls = "[CRLF, ''Sorry: LOGIN INCORRECT.'', [], ''never read'']"
  have st: "parseHttpStatusCode (Some ?l) = HTTP_OK"
    by code_simp
  have send: "sendRequest (char_signed example_env) \<lparr>send_fails = False, rx = ?l # ?ls\<rparr>
                example_config ''alice'' ''secret'' = Inr True"
    by code_simp
  have "strcasestr ''Sorry: LOGIN INCORRECT.'' ''Login incorrect'' \<noteq> None"
    by code_simp
  then have hit: "contains_ci ''Sorry: LOGIN INCORRECT.'' ''Login incorrect''"
    by (simp only: strcasestr_contains_ci)
  have "''Sorry: LOGIN INCORRECT.'' \<in> set (scanned_lines ?l ?ls)"
    by (simp add: scanned_lines_def CRLF_def)
  with hit have "\<exists>x \<in> set (scanned_lines ?l ?ls). contains_ci x ''Login incorrect''"
    by blast
  with tryLogin_verdict
         [of example_config example_env "\<lparr>send_fails = False, rx = ?l # ?ls\<rparr>" "''alice''"
             "''secret''" ?l ?ls "''Login incorrect''" example_login]
       st send
  show ?thesis
    by (auto simp: example_config_def example_login_def setPassResult_def
          restore_after_redirect_def)
qed

text \<open>
  Claim C9 as stated fails: the search does not read the rest of the body only. With
  the deny signal \<^verbatim>\<open>ok\<close> the status line \<^verbatim>\<open>HTTP/1.1 200 OK\<close> itself matches, and the
  verdict is \<^verbatim>\<open>LOGIN_RESULT_FAIL\<close> although no later line contains the signal.
\<close>

theorem tryLogin_status_line_counterexample:
  "tryLogin example_env
       \<lparr>send_fails = False, rx = [''HTTP/1.1 200 OK'' @ CRLF, CRLF, ''Welcome!'']\<rparr>
       (example_config\<lparr>denySignal := Some ''ok''\<rparr>) example_login ''alice'' ''secret''
     = Inr (MSTATE_NEW, example_config\<lparr>denySignal := Some ''ok''\<rparr>,
            \<lparr>iResult = LOGIN_RESULT_FAIL,
             passResults = [(''letmein'', LOGIN_RESULT_FAIL), (''secret'', LOGIN_RESULT_FAIL)]\<rparr>)
   \<and> strcasestr CRLF ''ok'' = None
   \<and> strcasestr ''Welcome!'' ''ok'' = None"
  by code_simp

text \<open>
  The branch for a status line that does not parse: whenever the request went out and
  the first line parses to \<^verbatim>\<open>HTTP_STATUS_PARSE_ERR\<close>, the login record comes back as it
  went in.
\<close>

lemma tryLogin_parse_error:
  assumes "formType md \<noteq> FORM_UNKNOWN"
    and "sendRequest (char_signed e) hSocket md u pw = Inr True"
    and "rx hSocket = l # ls"
    and "parseHttpStatusCode (Some l) = HTTP_STATUS_PARSE_ERR"
  shows "tryLogin e hSocket md lg u pw = Inr (MSTATE_EXITING, md, lg)"
  using request_received [OF assms(1-3), of lg] assms(4)
  by (simp add: tryLogin_def)

text \<open>
  Claim C1, which the code does not meet. A first line without a space parses to
  \<^verbatim>\<open>HTTP_STATUS_PARSE_ERR\<close>; \<open>tryLogin\<close> returns \<^verbatim>\<open>MSTATE_EXITING\<close> and leaves the login
  record as it was: nothing is recorded for the password \<^verbatim>\<open>secret\<close>, and the verdict
  of the earlier password stays in \<^verbatim>\<open>iResult\<close>. The branch for 404, next to it, does
  record \<^verbatim>\<open>LOGIN_RESULT_UNKNOWN\<close>.
\<close>

theorem tryLogin_parse_error_no_record:
  "tryLogin example_env \<lparr>send_fails = False, rx = [''garbage'' @ CRLF]\<rparr>
       example_config example_login ''alice'' ''secret''
     = Inr (MSTATE_EXITING, example_config, example_login)
   \<and> parseHttpStatusCode (Some (''garbage'' @ CRLF)) = HTTP_STATUS_PARSE_ERR
   \<and> passResults example_login = [(''letmein'', LOGIN_RESULT_FAIL)]
   \<and> tryLogin example_env \<lparr>send_fails = False, rx = [''HTTP/1.1 404 Not Found'' @ CRLF]\<rparr>
       example_config example_login ''alice'' ''secret''
     = Inr (MSTATE_EXITING, example_config,
            \<lparr>iResult = LOGIN_RESULT_UNKNOWN,
             passResults = [(''letmein'', LOGIN_RESULT_FAIL), (''secret'', LOGIN_RESULT_UNKNOWN)]\<rparr>)"
  by code_simp

text \<open>
  Claim C5, which the code does not meet. From the default configuration, a 302 answer
  with an absolute location leaves \<^verbatim>\<open>changedRequestType\<close> set and \<^verbatim>\<open>resourcePathOld\<close>
  absent; the 200 answer that follows then restores \<^verbatim>\<open>resourcePath\<close> from it, to a
  null pointer. In the other direction, a 307 answer with a relative location leaves
  \<^verbatim>\<open>resourcePathOld\<close> set and \<^verbatim>\<open>changedRequestType\<close> clear.
\<close>

theorem changed_without_old_path:
  "reachable example_env
     (example_config\<lparr>resourcePath := Some ''/app/home'', formType := FORM_GET,
                     changedRequestType := True\<rparr>)
   \<and> changedRequestType
       (example_config\<lparr>resourcePath := Some ''/app/home'', formType := FORM_GET,
                       changedRequestType := True\<rparr>)
   \<and> resourcePathOld
       (example_config\<lparr>resourcePath := Some ''/app/home'', formType := FORM_GET,
                       changedRequestType := True\<rparr>) = None
   \<and> tryLogin example_env \<lparr>send_fails = False, rx = [''HTTP/1.1 200 OK'' @ CRLF]\<rparr>
       (example_config\<lparr>resourcePath := Some ''/app/home'', formType := FORM_GET,
                       changedRequestType := True\<rparr>)
       example_login ''alice'' ''secret''
     = Inr (MSTATE_NEW, example_config\<lparr>resourcePath := None\<rparr>,
            \<lparr>iResult = LOGIN_RESULT_SUCCESS,
             passResults = [(''letmein'', LOGIN_RESULT_FAIL), (''secret'', LOGIN_RESULT_SUCCESS)]\<rparr>)
   \<and> reachable example_env
       (example_config\<lparr>resourcePath := Some ''/v2'', resourcePathOld := Some ''/''\<rparr>)
   \<and> \<not> changedRequestType
         (example_config\<lparr>resourcePath := Some ''/v2'', resourcePathOld := Some ''/''\<rparr>)"
proof -
  have start: "reachable example_env example_config"
    by (rule reachable_init [OF initialize_example])
  have r302: "tryLogin example_env \<lparr>send_fails = False, rx = [response_302_absolute]\<rparr>
                example_config example_login ''alice'' ''secret''
              = Inr (MSTATE_NEW,
                     example_config\<lparr>resourcePath := Some ''/app/home'', formType := FORM_GET,
                                    changedRequestType := True\<rparr>,
                     example_login)"
    by code_simp
  have r307: "tryLogin example_env \<lparr>send_fails = False, rx = [response_307_relative]\<rparr>
                example_config example_login ''alice'' ''secret''
              = Inr (MSTATE_NEW,
                     example_config\<lparr>resourcePath := Some ''/v2'', resourcePathOld := Some ''/''\<rparr>,
                     example_login)"
    by code_simp
  have r200: "tryLogin example_env \<lparr>send_fails = False, rx = [''HTTP/1.1 200 OK'' @ CRLF]\<rparr>
       (example_config\<lparr>resourcePath := Some ''/app/home'', formType := FORM_GET,
                       changedRequestType := True\<rparr>)
       example_login ''alice'' ''secret''
     = Inr (MSTATE_NEW, example_config\<lparr>resourcePath := None\<rparr>,
            \<lparr>iResult = LOGIN_RESULT_SUCCESS,
             passResults = [(''letmein'', LOGIN_RESULT_FAIL), (''secret'', LOGIN_RESULT_SUCCESS)]\<rparr>)"
    by code_simp
  show ?thesis
    using reachable_step [OF start r302] reachable_step [OF start r307] r200
    by (simp add: example_config_def)
qed

subsection \<open>The form type and \<^verbatim>\<open>abort()\<close>\<close>

lemma write_at_fault: "write_at b j xs = Inl f \<Longrightarrow> f = OutOfBounds"
  by (simp add: write_at_def split: if_splits)

lemma urlencode_loop_fault: "urlencode_loop schar cs j b = Inl f \<Longrightarrow> f = OutOfBounds"
  by (induction cs arbitrary: j b) (auto split: if_splits sum.splits dest: write_at_fault)

lemma urlencodeup_fault: "urlencodeup schar s = Inl f \<Longrightarrow> f = OutOfBounds"
  by (auto simp: urlencodeup_def Let_def split: sum.splits prod.splits
        dest: write_at_fault urlencode_loop_fault)

lemma sendRequest_fault:
  assumes "formType md \<noteq> FORM_UNKNOWN" and "sendRequest schar hSocket md u pw = Inl f"
  shows "f \<noteq> Abort"
  using assms
  by (cases "formType md")
     (auto simp: sendRequest_def prepareRequestString_def prepareRequestParamString_def Let_def
        split: sum.splits if_splits dest: urlencodeup_fault)

lemma request_fault:
  assumes "request e hSocket md lg u pw = Inl f"
  shows "f \<noteq> Abort"
proof (cases "formType md = FORM_UNKNOWN")
  case True
  with assms show ?thesis
    by (simp add: request_def)
next
  case False
  with assms have "sendRequest (char_signed e) hSocket md u pw = Inl f"
    by (cases "formType md")
       (auto simp: request_def medusaReceiveLine_def split: sum.splits bool.splits list.splits)
  with False show ?thesis
    by (rule sendRequest_fault)
qed

lemma findHeaderValue_fault: "findHeaderValue h src = Inl f \<Longrightarrow> f = OutOfBounds"
  by (auto simp: findHeaderValue_def Let_def split: option.splits if_splits)

lemma setCookies_loop_fault: "setCookies_loop md p = Inl f \<Longrightarrow> f \<noteq> Abort"
proof (induction md p rule: setCookies_loop.induct)
  case (1 md prevPos)
  show ?case
    using "1.prems" "1.IH"
    by (subst (asm) setCookies_loop.simps)
       (auto split: sum.splits option.splits prod.splits dest: findHeaderValue_fault)
qed

lemma denySignalFound_fault: "denySignalFound d buf lines = Inl f \<Longrightarrow> f = NullPointer"
proof (induction lines arbitrary: buf)
  case Nil
  then show ?case
    by (subst (asm) denySignalFound.simps) (auto split: if_splits option.splits)
next
  case (Cons l ls)
  from Cons.prems Cons.IH [of l] show ?case
    by (subst (asm) denySignalFound.simps)
       (auto split: if_splits option.splits)
qed

lemma verdict_fault: "verdict md lg pw buf lines = Inl f \<Longrightarrow> f \<noteq> Abort"
  by (auto simp: verdict_def split: sum.splits option.splits dest: denySignalFound_fault)

lemma follow_redirect_fault: "follow_redirect e sc md lg pw buf = Inl f \<Longrightarrow> f \<noteq> Abort"
  by (auto simp: follow_redirect_def findLocationHeaderValue_def resolveLocationPath_def
        setCookiesFromResponse_def Let_def
        split: sum.splits option.splits prod.splits PathTypeT.splits
        dest: findHeaderValue_fault setCookies_loop_fault)

lemma tryLogin_fault: "tryLogin e hSocket md lg u pw = Inl f \<Longrightarrow> f \<noteq> Abort"
  by (auto simp: tryLogin_def
        split: sum.splits prod.splits if_splits HttpStatusCodeT.splits
        dest: request_fault verdict_fault follow_redirect_fault)

lemma initialize_formType:
  assumes "initialize hostPort userAgent md0 = Inr md"
  shows "formType md = FORM_POST \<or> formType md = FORM_GET"
proof -
  define md2 where "md2 = (let md1 = (if resourcePath md0 = None
                                       then md0\<lparr>resourcePath := Some ''/''\<rparr> else md0)
                           in if hostHeader md1 = None
                              then md1\<lparr>hostHeader := Some hostPort\<rparr> else md1)"
  define md4 where "md4 =
     (case formData md2 of
        None \<Rightarrow> Inr (md2\<lparr>formRest := Some [],
                          formUserKey := Some MODULE_DEFAULT_USERNAME_KEY,
                          formPassKey := Some MODULE_DEFAULT_PASSWORD_KEY,
                          formType := FORM_POST\<rparr>)
      | Some fd \<Rightarrow>
          (case (if formUserKey md2 = None then parseFormData fd md2 else Inr md2) of
             Inl f \<Rightarrow> Inl f
           | Inr md3 \<Rightarrow>
               Inr (if formType md3 = FORM_UNKNOWN \<or> formUserKey md3 = None
                       \<or> formPassKey md3 = None
                    then md3\<lparr>formRest := Some [],
                             formUserKey := Some MODULE_DEFAULT_USERNAME_KEY,
                             formPassKey := Some MODULE_DEFAULT_PASSWORD_KEY,
                             formType := FORM_POST\<rparr>
                    else md3)))"
  have fin: "\<And>m. md4 = Inr m \<Longrightarrow> formType m = FORM_POST \<or> formType m = FORM_GET"
    unfolding md4_def
    by (auto split: option.splits sum.splits if_splits intro: FormTypeT.exhaust)
  from assms obtain m where m: "md4 = Inr m" and "formType md = formType m"
    unfolding initialize_def md4_def md2_def Let_def
    by (auto split: sum.splits if_splits)
  with fin show ?thesis
    by simp
qed

lemma restore_formType:
  "formType (restore_after_redirect md) = FORM_POST
   \<or> formType (restore_after_redirect md) = formType md"
  by (simp add: restore_after_redirect_def)

lemma tryLogin_formType:
  assumes "tryLogin e hSocket md lg u pw = Inr (st, md', lg')"
    and "formType md = FORM_POST \<or> formType md = FORM_GET"
  shows "formType md' = FORM_POST \<or> formType md' = FORM_GET"
proof -
  from tryLogin_cases [OF assms(1)] consider
    (exit) "md' = md"
  | (ok) l ls where "verdict (restore_after_redirect md) lg pw (Some l) ls = Inr (st, md', lg')"
  | (redirect) sc buf where "follow_redirect e sc md lg pw buf = Inr (st, md', lg')"
    by blast
  then show ?thesis
  proof cases
    case exit
    with assms(2) show ?thesis by simp
  next
    case ok
    then have "md' = restore_after_redirect md"
      by (simp add: verdict_md)
    with assms(2) restore_formType [of md] show ?thesis
      by auto
  next
    case redirect
    from follow_redirect_cases [OF redirect] assms(2) show ?thesis
      by (elim disjE conjE exE) (simp, auto)
  qed
qed

lemma reachable_formType:
  "reachable e md \<Longrightarrow> formType md = FORM_POST \<or> formType md = FORM_GET"
proof (induction rule: reachable.induct)
  case (reachable_init hostPort userAgent md0 md)
  then show ?case
    by (rule initialize_formType)
next
  case (reachable_step md hSocket login szLogin szPassword st md' login')
  from reachable_step.hyps(2) reachable_step.IH show ?case
    by (rule tryLogin_formType)
qed

lemma strtok_r_none: "strtok_r str delim = (None, save) \<Longrightarrow> set str \<subseteq> set delim"
proof -
  assume "strtok_r str delim = (None, save)"
  then have "dropWhile (\<lambda>c. c \<in> set delim) str = []"
    by (simp add: strtok_r_def Let_def split: if_splits)
  then show ?thesis
    by (auto simp: dropWhile_eq_Nil_conv)
qed

lemma parseFormData_fault:
  "parseFormData fd md = Inl f \<Longrightarrow> f = NullPointer \<and> set fd \<subseteq> {CHR ''?''}"
  by (auto simp: parseFormData_def Let_def split: prod.splits option.splits
        dest!: strtok_r_none)

lemma initialize_fault:
  assumes "initialize hostPort userAgent md0 = Inl f"
  shows "f = NullPointer
         \<and> (\<exists>fd. formData md0 = Some fd \<and> formUserKey md0 = None \<and> set fd \<subseteq> {CHR ''?''})"
  using assms
  by (auto simp: initialize_def Let_def split: option.splits sum.splits if_splits
        dest!: parseFormData_fault)

text \<open>
  Claim C10. Initialisation, when it completes, leaves the form type POST or GET (an
  unknown method is repaired to POST); it fails to complete only on a null token, when
  \<^verbatim>\<open>FORM-DATA\<close> holds nothing but question marks. Every configuration the state machine
  reaches has the form type POST or GET, so \<open>prepareRequestParamString\<close> does not
  abort there. And whatever the configuration: with the form type \<^verbatim>\<open>FORM_UNKNOWN\<close>,
  \<open>request\<close> returns the number of \<^verbatim>\<open>MSTATE_EXITING\<close> without building a request
  and \<open>tryLogin\<close> returns \<^verbatim>\<open>MSTATE_EXITING\<close>; no round trip ends in \<^verbatim>\<open>abort()\<close>.
\<close>

theorem abort_unreachable:
  "(initialize hostPort userAgent md0 = Inr md1
      \<longrightarrow> formType md1 = FORM_POST \<or> formType md1 = FORM_GET)
   \<and> (initialize hostPort userAgent md0 = Inl f
      \<longrightarrow> f = NullPointer
          \<and> (\<exists>fd. formData md0 = Some fd \<and> formUserKey md0 = None \<and> set fd \<subseteq> {CHR ''?''}))
   \<and> (reachable e md
      \<longrightarrow> (formType md = FORM_POST \<or> formType md = FORM_GET)
          \<and> prepareRequestParamString (char_signed e) md u pw \<noteq> Inl Abort)
   \<and> (formType md = FORM_UNKNOWN
      \<longrightarrow> request e hSocket md lg u pw = Inr (exiting_value e, None, lg, rx hSocket)
          \<and> tryLogin e hSocket md lg u pw = Inr (MSTATE_EXITING, md, lg))
   \<and> tryLogin e hSocket md lg u pw \<noteq> Inl Abort"
proof (intro conjI impI)
  assume "initialize hostPort userAgent md0 = Inr md1"
  then show "formType md1 = FORM_POST \<or> formType md1 = FORM_GET"
    by (rule initialize_formType)
next
  assume i: "initialize hostPort userAgent md0 = Inl f"
  from initialize_fault [OF i] show "f = NullPointer"
    by simp
  from initialize_fault [OF i]
  show "\<exists>fd. formData md0 = Some fd \<and> formUserKey md0 = None \<and> set fd \<subseteq> {CHR ''?''}"
    by simp
next
  assume r: "reachable e md"
  from reachable_formType [OF r] show ft: "formType md = FORM_POST \<or> formType md = FORM_GET" .
  show "prepareRequestParamString (char_signed e) md u pw \<noteq> Inl Abort"
    using ft
    by (auto simp: prepareRequestParamString_def Let_def split: sum.splits dest: urlencodeup_fault)
next
  assume u: "formType md = FORM_UNKNOWN"
  then show rq: "request e hSocket md lg u pw = Inr (exiting_value e, None, lg, rx hSocket)"
    by (simp add: request_def)
  show "tryLogin e hSocket md lg u pw = Inr (MSTATE_EXITING, md, lg)"
    by (simp add: tryLogin_def rq parseHttpStatusCode_def)
next
  show "tryLogin e hSocket md lg u pw \<noteq> Inl Abort"
    using tryLogin_fault [of e hSocket md lg u pw Abort] by blast
qed

text \<open>The theorem at a \<^verbatim>\<open>FORM-DATA\<close> option with the method \<^verbatim>\<open>put\<close>, and at an unknown form type.\<close>

theorem abort_unreachable_witness:
  "initialize ''example.com:80'' ''medusa''
       ((newModuleData FORM_UNKNOWN)\<lparr>formData := Some ''put?user=&pass=''\<rparr>)
     = Inr (example_config\<lparr>formData := Some ''put''\<rparr>)
   \<and> formType (example_config\<lparr>formData := Some ''put''\<rparr>) = FORM_POST
   \<and> initialize ''example.com:80'' ''medusa'' ((newModuleData FORM_UNKNOWN)\<lparr>formData := Some ''?''\<rparr>)
     = Inl NullPointer
   \<and> prepareRequestParamString True example_config ''alice'' ''secret''
     = Inr ''username=alice&password=secret''
   \<and> tryLogin example_env \<lparr>send_fails = False, rx = [''HTTP/1.1 200 OK'' @ CRLF]\<rparr>
       (example_config\<lparr>formType := FORM_UNKNOWN\<rparr>) example_login ''alice'' ''secret''
     = Inr (MSTATE_EXITING, example_config\<lparr>formType := FORM_UNKNOWN\<rparr>, example_login)"
proof -
  have i1: "initialize ''example.com:80'' ''medusa''
              ((newModuleData FORM_UNKNOWN)\<lparr>formData := Some ''put?user=&pass=''\<rparr>)
            = Inr (example_config\<lparr>formData := Some ''put''\<rparr>)"
    by code_simp
  have i2: "initialize ''example.com:80'' ''medusa''
              ((newModuleData FORM_UNKNOWN)\<lparr>formData := Some ''?''\<rparr>) = Inl NullPointer"
    by code_simp
  have p: "prepareRequestParamString True example_config ''alice'' ''secret''
           = Inr ''username=alice&password=secret''"
    by code_simp
  have r: "reachable example_env example_config"
    by (rule reachable_init [OF initialize_example])
  from abort_unreachable
         [of "''example.com:80''" "''medusa''"
             "(newModuleData FORM_UNKNOWN)\<lparr>formData := Some ''put?user=&pass=''\<rparr>"
             "example_config\<lparr>formData := Some ''put''\<rparr>" NullPointer
             example_env "example_config\<lparr>formType := FORM_UNKNOWN\<rparr>" "''alice''" "''secret''"
             "\<lparr>send_fails = False, rx = [''HTTP/1.1 200 OK'' @ CRLF]\<rparr>" example_login]
  have unknown: "tryLogin example_env \<lparr>send_fails = False, rx = [''HTTP/1.1 200 OK'' @ CRLF]\<rparr>
       (example_config\<lparr>formType := FORM_UNKNOWN\<rparr>) example_login ''alice'' ''secret''
     = Inr (MSTATE_EXITING, example_config\<lparr>formType := FORM_UNKNOWN\<rparr>, example_login)"
    by (simp add: example_config_def)
  from abort_unreachable
         [of "''example.com:80''" "''medusa''"
             "(newModuleData FORM_UNKNOWN)\<lparr>formData := Some ''put?user=&pass=''\<rparr>"
             "example_config\<lparr>formData := Some ''put''\<rparr>" NullPointer
             example_env example_config "''alice''" "''secret''"
             "\<lparr>send_fails = False, rx = [''HTTP/1.1 200 OK'' @ CRLF]\<rparr>" example_login]
       i1 r
  have "formType (example_config\<lparr>formData := Some ''put''\<rparr>) = FORM_POST
          \<or> formType (example_config\<lparr>formData := Some ''put''\<rparr>) = FORM_GET"
    by simp
  then have post: "formType (example_config\<lparr>formData := Some ''put''\<rparr>) = FORM_POST"
    by (simp add: example_config_def)
  from i1 i2 p unknown post show ?thesis
    by simp
qed

end
